theory Spec2Isabelle
  imports Main
begin

section \<open>The tweet scraper: data model\<close>

text \<open>
  A shallow embedding of \<^verbatim>\<open>src/main.py\<close>. A Python \<^verbatim>\<open>str\<close> is a list of code points, and a
  code point is a natural number; the literals of the program are ASCII and are written
  with \<open>ascii\<close>.

  An \<^verbatim>\<open>ObjectId\<close> is represented by the text \<^verbatim>\<open>str()\<close> gives for it, so that
  \<^verbatim>\<open>str(response_id)\<close> is the identifier itself. The content a fetch returns is kept
  opaque. The wall clock is a counter: every read returns its value and advances it.
\<close>

type_synonym codepoint = nat
type_synonym str = "codepoint list"

definition ascii :: "string \<Rightarrow> str" where
  "ascii s = map of_char s"

type_synonym object_id = str
type_synonym tweet = str

datatype val =
    VObjectId object_id
  | VDatetime nat
  | VEpoch nat
  | VStr str
  | VTweet tweet

text \<open>
  A document is a dict with its keys in order. The keys the program writes and queries
  are ASCII literals.
\<close>

type_synonym document = "(string \<times> val) list"

text \<open>A document of \<^verbatim>\<open>rawdata\<close>: its \<^verbatim>\<open>_id\<close> and its \<^verbatim>\<open>message\<close>.\<close>

record source_record =
  sr_id :: object_id
  sr_message :: str

text \<open>
  An exception that a call inside the worker's \<^verbatim>\<open>try\<close> can raise: an \<^verbatim>\<open>AttributeError\<close>,
  or any other \<^verbatim>\<open>Exception\<close>; both carry the text \<^verbatim>\<open>str(e)\<close>. \<^verbatim>\<open>UnboundLocalError\<close> is what
  reading a local variable that was never assigned raises; it is an \<^verbatim>\<open>Exception\<close> that is
  not an \<^verbatim>\<open>AttributeError\<close>.
\<close>

datatype exn =
    AttributeError str
  | UnboundLocalError
  | OtherException str

fun str_of_exn :: "exn \<Rightarrow> str" where
  "str_of_exn (AttributeError t) = t"
| "str_of_exn UnboundLocalError = ascii ''local variable referenced before assignment''"
| "str_of_exn (OtherException t) = t"

text \<open>
  What \<^verbatim>\<open>nitter_scraper.get_tweet_by_id\<close> does on one call: it returns content or raises.
  The collaborator is a parameter: a function of the calls made so far (user, tweet id,
  instance) and of the arguments of this call.
\<close>

datatype fetch_outcome =
    Returns tweet
  | Raises exn

type_synonym nitter =
  "(str \<times> str \<times> str) list \<Rightarrow> str \<Rightarrow> str \<Rightarrow> str \<Rightarrow> fetch_outcome"

text \<open>
  What \<^verbatim>\<open>insert_one\<close> of the store does on one call. It returns, having stored the document
  under the \<^verbatim>\<open>_id\<close> it generated for it; or it raises, and then either nothing was stored or
  the document was stored all the same (a write whose acknowledgement timed out). The
  store is a parameter: a function of the inserts attempted so far and of this one.
\<close>

datatype collection = Twitter | TwitterErrors

datatype insert_outcome =
    Inserted object_id
  | InsertRaises exn "object_id option"

type_synonym mongo =
  "(collection \<times> document) list \<Rightarrow> collection \<Rightarrow> document \<Rightarrow> insert_outcome"

text \<open>
  What the program runs against: the decimal digits beyond ASCII that Python's
  \<^verbatim>\<open>\d\<close> accepts (the table is Python's, not this repository's), the store's inserts, the
  fetch collaborator, and the process environment.
\<close>

record runtime =
  unicode_decimal :: "codepoint \<Rightarrow> bool"
  mongo_insert :: mongo
  get_tweet_by_id :: nitter
  environ :: "string \<rightharpoonup> str"

text \<open>
  The state the endpoint works on: the three collections, the logs of the calls made to
  the fetch collaborator and of the inserts attempted, and the clock. Queries of the
  store (\<^verbatim>\<open>find\<close>, \<^verbatim>\<open>find_one\<close>) return what the collections hold.
\<close>

record world =
  rawdata :: "source_record list"
  twitter :: "document list"
  twitter_errors :: "document list"
  nitter_calls :: "(str \<times> str \<times> str) list"
  insert_calls :: "(collection \<times> document) list"
  clock :: nat

text \<open>A per-record result and the summary the endpoint returns are dicts as well.\<close>

type_synonym result = "(string \<times> str) list"

record summary =
  message :: str
  processed_count :: int
  error_count :: int
  skipped_count :: int
  total_attempted_or_skipped :: int
  details :: "result list"

text \<open>
  How a request ends when it does not return the summary: with the \<^verbatim>\<open>HTTPException\<close> the
  endpoint raises itself, or with an exception that left the worker.
\<close>

datatype request_error = HTTPException nat str | Unhandled exn

section \<open>The pattern and its search\<close>

text \<open>
  \<^verbatim>\<open>pattern = re.compile(r"twitter\.com/([^/]+)/status/(\d+)")\<close>.
  \<^verbatim>\<open>strip_prefix p s\<close> is the rest of \<open>s\<close> after the literal \<open>p\<close>.
\<close>

fun strip_prefix :: "str \<Rightarrow> str \<Rightarrow> str option" where
  "strip_prefix [] s = Some s"
| "strip_prefix (p # ps) [] = None"
| "strip_prefix (p # ps) (c # cs) = (if p = c then strip_prefix ps cs else None)"

text \<open>
  The class \<^verbatim>\<open>\d\<close> of a \<^verbatim>\<open>str\<close> pattern: the ASCII digits and the other decimal digits of
  Unicode.
\<close>

definition is_digit :: "(codepoint \<Rightarrow> bool) \<Rightarrow> codepoint \<Rightarrow> bool" where
  "is_digit other_decimal c =
     (of_char CHR ''0'' \<le> c \<and> c \<le> of_char CHR ''9'' \<or> other_decimal c)"

definition not_slash :: "codepoint \<Rightarrow> bool" where
  "not_slash c = (c \<noteq> of_char CHR ''/'')"

text \<open>
  A match of the pattern starting at the head of \<open>s\<close>. The group \<^verbatim>\<open>[^/]+\<close> is greedy and the
  next pattern character is a slash, so it takes the whole run of non-slash characters:
  giving one back would leave a non-slash where the slash is required. The group
  \<^verbatim>\<open>\d+\<close> is greedy and ends the pattern, so it takes the whole run of digits.
\<close>

definition match_at :: "(codepoint \<Rightarrow> bool) \<Rightarrow> str \<Rightarrow> (str \<times> str) option" where
  "match_at other_decimal s =
     (case strip_prefix (ascii ''twitter.com/'') s of
        None \<Rightarrow> None
      | Some s1 \<Rightarrow>
          let user_id = takeWhile not_slash s1 in
          if user_id = [] then None
          else (case strip_prefix (ascii ''/status/'') (dropWhile not_slash s1) of
                  None \<Rightarrow> None
                | Some s2 \<Rightarrow>
                    let tweet_id = takeWhile (is_digit other_decimal) s2 in
                    if tweet_id = [] then None else Some (user_id, tweet_id)))"

text \<open>\<^verbatim>\<open>pattern.search\<close>: the match at the leftmost position that has one.\<close>

fun search :: "(codepoint \<Rightarrow> bool) \<Rightarrow> str \<Rightarrow> (str \<times> str) option" where
  "search other_decimal [] = match_at other_decimal []"
| "search other_decimal (c # cs) =
     (case match_at other_decimal (c # cs) of
        Some m \<Rightarrow> Some m
      | None \<Rightarrow> search other_decimal cs)"

section \<open>The collections\<close>

text \<open>
  \<^verbatim>\<open>insert_one\<close>. The insert is logged; a document that is stored is stored with the
  \<^verbatim>\<open>_id\<close> the store gave it, at the end of its collection; an exception the store raises
  is the outcome of the call.
\<close>

definition store_document :: "collection \<Rightarrow> object_id \<Rightarrow> document \<Rightarrow> world \<Rightarrow> world" where
  "store_document coll oid doc w =
     (case coll of
        Twitter \<Rightarrow> w\<lparr>twitter := twitter w @ [(''_id'', VObjectId oid) # doc]\<rparr>
      | TwitterErrors \<Rightarrow> w\<lparr>twitter_errors := twitter_errors w @ [(''_id'', VObjectId oid) # doc]\<rparr>)"

definition insert_one :: "mongo \<Rightarrow> world \<Rightarrow> collection \<Rightarrow> document \<Rightarrow> (exn + object_id) \<times> world" where
  "insert_one db w coll doc =
     (let w1 = w\<lparr>insert_calls := insert_calls w @ [(coll, doc)]\<rparr>
      in case db (insert_calls w) coll doc of
           Inserted oid \<Rightarrow> (Inr oid, store_document coll oid doc w1)
         | InsertRaises e None \<Rightarrow> (Inl e, w1)
         | InsertRaises e (Some oid) \<Rightarrow> (Inl e, store_document coll oid doc w1))"

text \<open>\<^verbatim>\<open>find_one({'source_id': response_id})\<close>: the first document with that field.\<close>

definition has_source_id :: "object_id \<Rightarrow> document \<Rightarrow> bool" where
  "has_source_id response_id doc = (map_of doc ''source_id'' = Some (VObjectId response_id))"

definition find_one :: "document list \<Rightarrow> object_id \<Rightarrow> document option" where
  "find_one coll response_id = find (has_source_id response_id) coll"

text \<open>
  \<^verbatim>\<open>find({'message': {'$regex': "twitter.com", '$options': "i"}})\<close>. The pattern is a regular
  expression: its dot is not escaped, so it stands for any character but a newline, and
  the option makes the letters match in either case. The letters of this pattern have no
  other case variants than their ASCII capitals.
\<close>

datatype atom = Lit codepoint | AnyChar

definition regex_atoms :: "str \<Rightarrow> atom list" where
  "regex_atoms p = map (\<lambda>c. if c = of_char CHR ''.'' then AnyChar else Lit c) p"

definition to_lower :: "codepoint \<Rightarrow> codepoint" where
  "to_lower c = (if of_char CHR ''A'' \<le> c \<and> c \<le> of_char CHR ''Z'' then c + 32 else c)"

fun atom_matches :: "atom \<Rightarrow> codepoint \<Rightarrow> bool" where
  "atom_matches (Lit p) c = (to_lower p = to_lower c)"
| "atom_matches AnyChar c = (c \<noteq> 10)"

fun atoms_match_at :: "atom list \<Rightarrow> str \<Rightarrow> bool" where
  "atoms_match_at [] s = True"
| "atoms_match_at (a # as) [] = False"
| "atoms_match_at (a # as) (c # cs) = (atom_matches a c \<and> atoms_match_at as cs)"

fun regex_i :: "atom list \<Rightarrow> str \<Rightarrow> bool" where
  "regex_i as [] = atoms_match_at as []"
| "regex_i as (c # cs) = (atoms_match_at as (c # cs) \<or> regex_i as cs)"

definition responses_cursor :: "world \<Rightarrow> source_record list" where
  "responses_cursor w =
     filter (\<lambda>response. regex_i (regex_atoms (ascii ''twitter.com'')) (sr_message response))
       (rawdata w)"

section \<open>The worker\<close>

definition getenv :: "(string \<rightharpoonup> str) \<Rightarrow> string \<Rightarrow> str \<Rightarrow> str" where
  "getenv env name dflt = (case env name of Some v \<Rightarrow> v | None \<Rightarrow> dflt)"

definition nitter_instance :: "runtime \<Rightarrow> str" where
  "nitter_instance k =
     getenv (environ k) ''NITTER_INSTANCE_URL'' (ascii ''http://raspberrypi.local:8081'')"

text \<open>
  The dicts handed to \<^verbatim>\<open>insert_one\<close>; \<open>t\<close> is the clock when the dict is built, read once
  for \<^verbatim>\<open>created_time\<close> and once for \<^verbatim>\<open>timestamp\<close>.
\<close>

definition failure_outcome :: "object_id \<Rightarrow> nat \<Rightarrow> str \<Rightarrow> document" where
  "failure_outcome response_id t error_message =
     [(''source_id'', VObjectId response_id),
      (''created_time'', VDatetime t),
      (''timestamp'', VEpoch (t + 1)),
      (''error'', VStr error_message)]"

definition success_outcome :: "object_id \<Rightarrow> nat \<Rightarrow> tweet \<Rightarrow> document" where
  "success_outcome response_id t tweet =
     [(''source_id'', VObjectId response_id),
      (''created_time'', VDatetime t),
      (''timestamp'', VEpoch (t + 1)),
      (''tweet'', VTweet tweet)]"

text \<open>
  The statements that the no-match branch and the two handlers share: insert the error
  document and return the error result. An exception of the insert leaves the statements.
\<close>

definition record_error :: "runtime \<Rightarrow> world \<Rightarrow> object_id \<Rightarrow> str \<Rightarrow> (exn + result) \<times> world" where
  "record_error k w response_id error_message =
     (case insert_one (mongo_insert k) (w\<lparr>clock := clock w + 2\<rparr>) TwitterErrors
             (failure_outcome response_id (clock w) error_message) of
        (Inl e, w') \<Rightarrow> (Inl e, w')
      | (Inr oid, w') \<Rightarrow>
          (Inr [(''status'', ascii ''error''), (''id'', response_id),
                (''error_message'', error_message)], w'))"

text \<open>
  The two \<^verbatim>\<open>except\<close> clauses, entered with the exception \<open>e\<close> that left the \<^verbatim>\<open>try\<close>.
  \<open>bound\<close> says whether \<^verbatim>\<open>user_id\<close> and \<^verbatim>\<open>tweet_id\<close> were assigned before: the handler of
  \<^verbatim>\<open>AttributeError\<close> reads both for its message, ahead of its insert. An exception raised
  inside a handler leaves the function.
\<close>

definition except_clauses ::
  "runtime \<Rightarrow> world \<Rightarrow> object_id \<Rightarrow> bool \<Rightarrow> exn \<Rightarrow> (exn + result) \<times> world" where
  "except_clauses k w response_id bound e =
     (case e of
        AttributeError t \<Rightarrow>
          if bound
          then record_error k w response_id
                 (ascii ''Nitter scraping failed (AttributeError): '' @ t)
          else (Inl UnboundLocalError, w)
      | _ \<Rightarrow>
          record_error k w response_id
            (ascii ''An unexpected error occurred: '' @ str_of_exn e))"

definition scrape_and_store_tweet ::
  "runtime \<Rightarrow> world \<Rightarrow> object_id \<Rightarrow> str \<Rightarrow> (exn + result) \<times> world" where
  "scrape_and_store_tweet k w response_id tweet_url =
     (case search (unicode_decimal k) tweet_url of
        None \<Rightarrow>
          (case record_error k w response_id (ascii ''Invalid tweet URL format: '' @ tweet_url) of
             (Inl e, w') \<Rightarrow> except_clauses k w' response_id False e
           | (Inr result, w') \<Rightarrow> (Inr result, w'))
      | Some (user_id, tweet_id) \<Rightarrow>
          let w1 = w\<lparr>nitter_calls := nitter_calls w @ [(user_id, tweet_id, nitter_instance k)]\<rparr>
          in (case get_tweet_by_id k (nitter_calls w) user_id tweet_id (nitter_instance k) of
                Returns tweet \<Rightarrow>
                  (case insert_one (mongo_insert k) (w1\<lparr>clock := clock w1 + 2\<rparr>) Twitter
                          (success_outcome response_id (clock w1) tweet) of
                     (Inl e, w') \<Rightarrow> except_clauses k w' response_id True e
                   | (Inr oid, w') \<Rightarrow>
                       (Inr [(''status'', ascii ''success''), (''id'', response_id)], w'))
              | Raises e \<Rightarrow> except_clauses k w1 response_id True e))"

section \<open>The batch driver\<close>

text \<open>
  The loop variables of \<^verbatim>\<open>process_tweets_endpoint\<close>: the three counters and the results
  list.
\<close>

record counters =
  processed :: int
  errored :: int
  skipped :: int
  results :: "result list"

text \<open>
  The body of the \<^verbatim>\<open>for\<close> loop, for one document of the cursor. An exception that leaves
  the worker leaves the loop body.
\<close>

definition loop_body ::
  "runtime \<Rightarrow> counters \<times> world \<Rightarrow> source_record \<Rightarrow> (exn + counters) \<times> world" where
  "loop_body k st response =
     (let acc = fst st; w = snd st;
          response_id = sr_id response;
          tweet_url_message = sr_message response
      in case find_one (twitter w) response_id of
           None \<Rightarrow>
             (case find_one (twitter_errors w) response_id of
                None \<Rightarrow>
                  (case scrape_and_store_tweet k w response_id tweet_url_message of
                     (Inl e, w') \<Rightarrow> (Inl e, w')
                   | (Inr result, w') \<Rightarrow>
                       let acc1 = acc\<lparr>results := results acc @ [result]\<rparr>
                       in if map_of result ''status'' = Some (ascii ''success'')
                          then (Inr (acc1\<lparr>processed := processed acc1 + 1\<rparr>), w')
                          else (Inr (acc1\<lparr>errored := errored acc1 + 1\<rparr>), w'))
              | Some is_error \<Rightarrow>
                  (Inr (acc\<lparr>skipped := skipped acc + 1,
                            results := results acc @
                              [[(''status'', ascii ''already_in_error''), (''id'', response_id),
                                (''message'', ascii ''Tweet previously failed to process.'')]]\<rparr>),
                   w))
         | Some is_processed \<Rightarrow>
             (Inr (acc\<lparr>skipped := skipped acc + 1,
                       results := results acc @
                         [[(''status'', ascii ''already_processed''), (''id'', response_id),
                           (''message'', ascii ''Tweet already successfully processed.'')]]\<rparr>),
              w))"

text \<open>The loop: it ends with the cursor, or with the first exception.\<close>

fun for_loop ::
  "runtime \<Rightarrow> counters \<times> world \<Rightarrow> source_record list \<Rightarrow> (exn + counters) \<times> world" where
  "for_loop k st [] = (Inr (fst st), snd st)"
| "for_loop k st (response # rest) =
     (case loop_body k st response of
        (Inl e, w') \<Rightarrow> (Inl e, w')
      | (Inr acc', w') \<Rightarrow> for_loop k (acc', w') rest)"

text \<open>
  The endpoint. The globals \<^verbatim>\<open>db_client\<close> and \<^verbatim>\<open>nitter_scraper\<close> are \<^verbatim>\<open>None\<close> until
  the startup code has set them; the two flags say whether they are set, and the endpoint
  raises when either is not.
\<close>

definition process_tweets_endpoint ::
  "bool \<Rightarrow> bool \<Rightarrow> runtime \<Rightarrow> world \<Rightarrow> (request_error + summary) \<times> world" where
  "process_tweets_endpoint db_client nitter_scraper k w =
     (if \<not> db_client \<or> \<not> nitter_scraper
      then (Inl (HTTPException 500 (ascii
        ''Database client or Nitter scraper not initialized. Check server logs for startup errors.'')),
        w)
      else
        (case for_loop k (\<lparr>processed = 0, errored = 0, skipped = 0, results = []\<rparr>, w)
                (responses_cursor w) of
           (Inl e, w') \<Rightarrow> (Inl (Unhandled e), w')
         | (Inr acc, w') \<Rightarrow>
             (Inr \<lparr>message = ascii ''Tweet processing completed.'',
                   processed_count = processed acc,
                   error_count = errored acc,
                   skipped_count = skipped acc,
                   total_attempted_or_skipped = processed acc + errored acc + skipped acc,
                   details = results acc\<rparr>, w')))"

section \<open>Notions the properties are stated with\<close>

text \<open>A source id has a success outcome, or a failure outcome, when the query finds one.\<close>

definition has_success_outcome :: "world \<Rightarrow> object_id \<Rightarrow> bool" where
  "has_success_outcome w source_id = (find_one (twitter w) source_id \<noteq> None)"

definition has_failure_outcome :: "world \<Rightarrow> object_id \<Rightarrow> bool" where
  "has_failure_outcome w source_id = (find_one (twitter_errors w) source_id \<noteq> None)"

text \<open>
  The call of the collaborator that the worker makes for a message in a world: none when
  the search finds no match, else the outcome of \<^verbatim>\<open>get_tweet_by_id\<close> on the two groups.
\<close>

definition fetch :: "runtime \<Rightarrow> world \<Rightarrow> str \<Rightarrow> fetch_outcome option" where
  "fetch k w tweet_url =
     (case search (unicode_decimal k) tweet_url of
        None \<Rightarrow> None
      | Some (user_id, tweet_id) \<Rightarrow>
          Some (get_tweet_by_id k (nitter_calls w) user_id tweet_id (nitter_instance k)))"

text \<open>
  Two properties a store can have: an insert that raises has stored nothing; and no insert
  raises.
\<close>

definition atomic_inserts :: "mongo \<Rightarrow> bool" where
  "atomic_inserts db = (\<forall>calls coll doc e oid. db calls coll doc \<noteq> InsertRaises e (Some oid))"

definition accepts_inserts :: "mongo \<Rightarrow> bool" where
  "accepts_inserts db = (\<forall>calls coll doc. \<exists>oid. db calls coll doc = Inserted oid)"

text \<open>
  The specification's post reference: the domain, a handle that is a non-empty run of
  non-slash characters, \<^verbatim>\<open>/status/\<close>, and an id of digits only.
\<close>

definition post_reference :: "str \<Rightarrow> str \<Rightarrow> str" where
  "post_reference handle post_id =
     ascii ''twitter.com/'' @ handle @ ascii ''/status/'' @ post_id"

definition is_handle :: "str \<Rightarrow> bool" where
  "is_handle handle = (handle \<noteq> [] \<and> list_all not_slash handle)"

definition is_numeric_id :: "(codepoint \<Rightarrow> bool) \<Rightarrow> str \<Rightarrow> bool" where
  "is_numeric_id other_decimal post_id =
     (post_id \<noteq> [] \<and> list_all (is_digit other_decimal) post_id)"

text \<open>
  The specification's pre-filter: the message contains the literal text as a substring,
  letters compared without regard to case.
\<close>

fun contains :: "str \<Rightarrow> str \<Rightarrow> bool" where
  "contains p [] = (strip_prefix p [] \<noteq> None)"
| "contains p (c # cs) = (strip_prefix p (c # cs) \<noteq> None \<or> contains p cs)"

definition contains_ignoring_case :: "str \<Rightarrow> str \<Rightarrow> bool" where
  "contains_ignoring_case p s = contains (map to_lower p) (map to_lower s)"

text \<open>A per-record result that notes a skip.\<close>

definition is_skip_note :: "result \<Rightarrow> bool" where
  "is_skip_note res =
     (map_of res ''status'' = Some (ascii ''already_processed'') \<or>
      map_of res ''status'' = Some (ascii ''already_in_error''))"

text \<open>
  Two relations between the world before and after some statements, used in the proofs:
  the outcome collections have only gained documents of one source id; and they are the
  same as before.
\<close>

definition grows :: "object_id \<Rightarrow> world \<Rightarrow> world \<Rightarrow> bool" where
  "grows source_id w w' =
     (rawdata w' = rawdata w \<and>
      (\<exists>ds. twitter w' = twitter w @ ds \<and> list_all (has_source_id source_id) ds) \<and>
      (\<exists>es. twitter_errors w' = twitter_errors w @ es \<and> list_all (has_source_id source_id) es))"

definition same_outcomes :: "world \<Rightarrow> world \<Rightarrow> bool" where
  "same_outcomes w w' =
     (rawdata w' = rawdata w \<and> twitter w' = twitter w \<and> twitter_errors w' = twitter_errors w)"

section \<open>Concrete runs\<close>

text \<open>
  Stores: one that accepts every insert; one whose inserts into \<^verbatim>\<open>twitter\<close> raise and
  store nothing; one whose inserts into \<^verbatim>\<open>twitter\<close> store the document and raise all the
  same; one whose inserts into \<^verbatim>\<open>twitter-errors\<close> raise; and one whose first insert raises.
\<close>

definition new_id :: "(collection \<times> document) list \<Rightarrow> object_id" where
  "new_id calls = replicate (Suc (length calls)) (of_char CHR ''f'')"

definition store_ok :: mongo where
  "store_ok calls coll doc = Inserted (new_id calls)"

definition store_twitter_down :: mongo where
  "store_twitter_down calls coll doc =
     (case coll of
        Twitter \<Rightarrow> InsertRaises (OtherException (ascii ''timed out'')) None
      | TwitterErrors \<Rightarrow> Inserted (new_id calls))"

definition store_ack_lost :: mongo where
  "store_ack_lost calls coll doc =
     (case coll of
        Twitter \<Rightarrow> InsertRaises (OtherException (ascii ''timed out'')) (Some (new_id calls))
      | TwitterErrors \<Rightarrow> Inserted (new_id calls))"

definition store_errors_down :: mongo where
  "store_errors_down calls coll doc =
     (case coll of
        Twitter \<Rightarrow> Inserted (new_id calls)
      | TwitterErrors \<Rightarrow> InsertRaises (OtherException (ascii ''timed out'')) None)"

definition store_first_insert_fails :: mongo where
  "store_first_insert_fails calls coll doc =
     (if calls = [] then InsertRaises (OtherException (ascii ''timed out'')) None
      else Inserted (new_id calls))"

text \<open>
  A collaborator that returns content for one user, raises \<^verbatim>\<open>AttributeError\<close> for
  another and some other exception for the rest; the Arabic-Indic digits as decimal
  digits beyond ASCII; and a store with five source records, one of them resolved before.
\<close>

definition example_nitter :: nitter where
  "example_nitter calls user_id tweet_id instance =
     (if user_id = ascii ''alice'' then Returns (ascii ''hello world'')
      else if user_id = ascii ''bob_2'' then Raises (AttributeError (ascii ''no tweet''))
      else Raises (OtherException (ascii ''timed out'')))"

definition example_runtime :: runtime where
  "example_runtime =
     \<lparr>unicode_decimal = (\<lambda>c. 1632 \<le> c \<and> c \<le> 1641),
      mongo_insert = store_ok,
      get_tweet_by_id = example_nitter,
      environ = Map.empty\<rparr>"

definition alice_url :: str where
  "alice_url = ascii ''https://twitter.com/alice/status/12345''"

definition bob_url :: str where
  "bob_url = ascii ''check out this link http://twitter.com/bob_2/status/99''"

definition carol_url :: str where
  "carol_url = ascii ''twitter.com/carol/status/7''"

definition mixed_url :: str where
  "mixed_url =
     ascii ''see twitter.com/x/status/ then twitter.com/bob_2/status/9'' @ [1641] @
     ascii ''x twitter.com/a/status/1''"

definition example_world :: world where
  "example_world =
     \<lparr>rawdata =
        [\<lparr>sr_id = ascii ''a1'', sr_message = alice_url\<rparr>,
         \<lparr>sr_id = ascii ''b2'', sr_message = bob_url\<rparr>,
         \<lparr>sr_id = ascii ''c3'', sr_message = ascii ''see Twitter.com''\<rparr>,
         \<lparr>sr_id = ascii ''d4'', sr_message = ascii ''no url here''\<rparr>,
         \<lparr>sr_id = ascii ''e5'', sr_message = carol_url\<rparr>],
      twitter = [(''_id'', VObjectId (ascii ''e'')) # success_outcome (ascii ''e5'') 0 (ascii ''old'')],
      twitter_errors = [],
      nitter_calls = [],
      insert_calls = [],
      clock = 2\<rparr>"

definition example_world_after :: world where
  "example_world_after =
     \<lparr>rawdata = rawdata example_world,
      twitter =
        [(''_id'', VObjectId (ascii ''e'')) # success_outcome (ascii ''e5'') 0 (ascii ''old''),
         (''_id'', VObjectId (ascii ''f'')) #
           success_outcome (ascii ''a1'') 2 (ascii ''hello world'')],
      twitter_errors =
        [(''_id'', VObjectId (ascii ''ff'')) #
           failure_outcome (ascii ''b2'') 4
             (ascii ''Nitter scraping failed (AttributeError): no tweet''),
         (''_id'', VObjectId (ascii ''fff'')) #
           failure_outcome (ascii ''c3'') 6
             (ascii ''Invalid tweet URL format: see Twitter.com'')],
      nitter_calls =
        [(ascii ''alice'', ascii ''12345'', ascii ''http://raspberrypi.local:8081''),
         (ascii ''bob_2'', ascii ''99'', ascii ''http://raspberrypi.local:8081'')],
      insert_calls =
        [(Twitter, success_outcome (ascii ''a1'') 2 (ascii ''hello world'')),
         (TwitterErrors, failure_outcome (ascii ''b2'') 4
            (ascii ''Nitter scraping failed (AttributeError): no tweet'')),
         (TwitterErrors, failure_outcome (ascii ''c3'') 6
            (ascii ''Invalid tweet URL format: see Twitter.com''))],
      clock = 8\<rparr>"

definition example_summary :: summary where
  "example_summary =
     \<lparr>message = ascii ''Tweet processing completed.'',
      processed_count = 1,
      error_count = 2,
      skipped_count = 1,
      total_attempted_or_skipped = 4,
      details =
        [[(''status'', ascii ''success''), (''id'', ascii ''a1'')],
         [(''status'', ascii ''error''), (''id'', ascii ''b2''),
          (''error_message'', ascii ''Nitter scraping failed (AttributeError): no tweet'')],
         [(''status'', ascii ''error''), (''id'', ascii ''c3''),
          (''error_message'', ascii ''Invalid tweet URL format: see Twitter.com'')],
         [(''status'', ascii ''already_processed''), (''id'', ascii ''e5''),
          (''message'', ascii ''Tweet already successfully processed.'')]]\<rparr>"


text \<open>A store with one pending record, and what a run over the store that loses its
  acknowledgements leaves of it.\<close>

definition pending_world :: world where
  "pending_world =
     \<lparr>rawdata = [\<lparr>sr_id = ascii ''a1'', sr_message = alice_url\<rparr>],
      twitter = [],
      twitter_errors = [],
      nitter_calls = [],
      insert_calls = [],
      clock = 0\<rparr>"

definition ack_lost_world :: world where
  "ack_lost_world =
     \<lparr>rawdata = rawdata pending_world,
      twitter =
        [(''_id'', VObjectId (ascii ''f'')) #
           success_outcome (ascii ''a1'') 0 (ascii ''hello world'')],
      twitter_errors =
        [(''_id'', VObjectId (ascii ''ff'')) #
           failure_outcome (ascii ''a1'') 2 (ascii ''An unexpected error occurred: timed out'')],
      nitter_calls =
        [(ascii ''alice'', ascii ''12345'', ascii ''http://raspberrypi.local:8081'')],
      insert_calls =
        [(Twitter, success_outcome (ascii ''a1'') 0 (ascii ''hello world'')),
         (TwitterErrors, failure_outcome (ascii ''a1'') 2
            (ascii ''An unexpected error occurred: timed out''))],
      clock = 4\<rparr>"

definition ack_lost_summary :: summary where
  "ack_lost_summary =
     \<lparr>message = ascii ''Tweet processing completed.'',
      processed_count = 0,
      error_count = 1,
      skipped_count = 0,
      total_attempted_or_skipped = 1,
      details =
        [[(''status'', ascii ''error''), (''id'', ascii ''a1''),
          (''error_message'', ascii ''An unexpected error occurred: timed out'')]]\<rparr>"

section \<open>Inserts, the error record and the handlers\<close>

lemma has_source_id_with_id [simp]:
  "has_source_id i ((''_id'', v) # doc) = has_source_id i doc"
  by (simp add: has_source_id_def)

lemma has_source_id_failure [simp]: "has_source_id j (failure_outcome i t m) = (i = j)"
  by (auto simp add: has_source_id_def failure_outcome_def)

lemma has_source_id_success [simp]: "has_source_id j (success_outcome i t c) = (i = j)"
  by (auto simp add: has_source_id_def success_outcome_def)

lemma grows_refl [simp]: "grows i w w"
  by (simp add: grows_def)

lemma grows_trans: "grows i w w1 \<Longrightarrow> grows i w1 w2 \<Longrightarrow> grows i w w2"
  by (auto simp add: grows_def)

lemma grows_clock [simp]: "grows i (w\<lparr>clock := t\<rparr>) w' = grows i w w'"
  by (simp add: grows_def)

lemma grows_nitter_calls [simp]: "grows i (w\<lparr>nitter_calls := c\<rparr>) w' = grows i w w'"
  by (simp add: grows_def)

lemma same_outcomes_refl [simp]: "same_outcomes w w"
  by (simp add: same_outcomes_def)

lemma same_outcomes_trans: "same_outcomes w w1 \<Longrightarrow> same_outcomes w1 w2 \<Longrightarrow> same_outcomes w w2"
  by (simp add: same_outcomes_def)

lemma same_outcomes_clock [simp]: "same_outcomes (w\<lparr>clock := t\<rparr>) w' = same_outcomes w w'"
  by (simp add: same_outcomes_def)

lemma same_outcomes_nitter_calls [simp]:
  "same_outcomes (w\<lparr>nitter_calls := c\<rparr>) w' = same_outcomes w w'"
  by (simp add: same_outcomes_def)

text \<open>What one insert does.\<close>

lemma insert_one_Inr:
  "insert_one db w coll doc = (Inr oid, w') \<Longrightarrow>
   db (insert_calls w) coll doc = Inserted oid \<and>
   w' = store_document coll oid doc (w\<lparr>insert_calls := insert_calls w @ [(coll, doc)]\<rparr>)"
  by (auto simp add: insert_one_def Let_def split: insert_outcome.splits option.splits)

lemma insert_one_Inserted:
  "db (insert_calls w) coll doc = Inserted oid \<Longrightarrow>
   insert_one db w coll doc =
     (Inr oid, store_document coll oid doc (w\<lparr>insert_calls := insert_calls w @ [(coll, doc)]\<rparr>))"
  by (simp add: insert_one_def Let_def)

lemma insert_one_grows:
  "has_source_id i doc \<Longrightarrow> insert_one db w coll doc = (out, w') \<Longrightarrow> grows i w w'"
  by (cases coll)
     (auto simp add: insert_one_def Let_def store_document_def grows_def
        split: insert_outcome.splits option.splits)

lemma insert_one_Inl_atomic:
  "atomic_inserts db \<Longrightarrow> insert_one db w coll doc = (Inl e, w') \<Longrightarrow> same_outcomes w w'"
  by (auto simp add: insert_one_def Let_def atomic_inserts_def same_outcomes_def
      split: insert_outcome.splits option.splits)

lemma insert_one_nitter_calls:
  "insert_one db w coll doc = (out, w') \<Longrightarrow> nitter_calls w' = nitter_calls w"
  by (cases coll)
     (auto simp add: insert_one_def Let_def store_document_def
        split: insert_outcome.splits option.splits)

text \<open>The statements that record an error.\<close>

lemma record_error_grows: "record_error k w i m = (out, w') \<Longrightarrow> grows i w w'"
proof -
  assume a: "record_error k w i m = (out, w')"
  obtain r w1 where
    s: "insert_one (mongo_insert k) (w\<lparr>clock := clock w + 2\<rparr>) TwitterErrors
          (failure_outcome i (clock w) m) = (r, w1)"
    by (cases "insert_one (mongo_insert k) (w\<lparr>clock := clock w + 2\<rparr>) TwitterErrors
          (failure_outcome i (clock w) m)")
  from a s have "w' = w1" by (auto simp add: record_error_def split: sum.splits)
  with insert_one_grows[OF _ s, of i] show ?thesis by simp
qed

lemma record_error_Inr:
  assumes "record_error k w i m = (Inr result, w')"
  shows "result = [(''status'', ascii ''error''), (''id'', i), (''error_message'', m)] \<and>
    (\<exists>oid. mongo_insert k (insert_calls w) TwitterErrors (failure_outcome i (clock w) m) =
              Inserted oid \<and>
       w' = w\<lparr>clock := clock w + 2,
              insert_calls := insert_calls w @ [(TwitterErrors, failure_outcome i (clock w) m)],
              twitter_errors := twitter_errors w @
                [(''_id'', VObjectId oid) # failure_outcome i (clock w) m]\<rparr>)"
proof -
  obtain r w1 where
    s: "insert_one (mongo_insert k) (w\<lparr>clock := clock w + 2\<rparr>) TwitterErrors
          (failure_outcome i (clock w) m) = (r, w1)"
    by (cases "insert_one (mongo_insert k) (w\<lparr>clock := clock w + 2\<rparr>) TwitterErrors
          (failure_outcome i (clock w) m)")
  from assms s obtain oid where r: "r = Inr oid" and w: "w' = w1"
    and res: "result = [(''status'', ascii ''error''), (''id'', i), (''error_message'', m)]"
    by (auto simp add: record_error_def split: sum.splits)
  from insert_one_Inr[OF s[unfolded r]] w res show ?thesis
    by (auto simp add: store_document_def)
qed

lemma record_error_Inserted:
  "mongo_insert k (insert_calls w) TwitterErrors (failure_outcome i (clock w) m) = Inserted oid \<Longrightarrow>
   record_error k w i m =
     (Inr [(''status'', ascii ''error''), (''id'', i), (''error_message'', m)],
      w\<lparr>clock := clock w + 2,
        insert_calls := insert_calls w @ [(TwitterErrors, failure_outcome i (clock w) m)],
        twitter_errors := twitter_errors w @
          [(''_id'', VObjectId oid) # failure_outcome i (clock w) m]\<rparr>)"
  by (simp add: record_error_def insert_one_def Let_def store_document_def)

lemma record_error_Inl_atomic:
  assumes "atomic_inserts (mongo_insert k)" and "record_error k w i m = (Inl e, w')"
  shows "same_outcomes w w'"
proof -
  obtain r w1 where
    s: "insert_one (mongo_insert k) (w\<lparr>clock := clock w + 2\<rparr>) TwitterErrors
          (failure_outcome i (clock w) m) = (r, w1)"
    by (cases "insert_one (mongo_insert k) (w\<lparr>clock := clock w + 2\<rparr>) TwitterErrors
          (failure_outcome i (clock w) m)")
  from assms(2) s have "r = Inl e" "w' = w1"
    by (auto simp add: record_error_def split: sum.splits)
  with s have "insert_one (mongo_insert k) (w\<lparr>clock := clock w + 2\<rparr>) TwitterErrors
          (failure_outcome i (clock w) m) = (Inl e, w')" by simp
  from insert_one_Inl_atomic[OF assms(1) this] show ?thesis by simp
qed

lemma record_error_nitter_calls:
  "record_error k w i m = (out, w') \<Longrightarrow> nitter_calls w' = nitter_calls w"
proof -
  assume a: "record_error k w i m = (out, w')"
  obtain r w1 where
    s: "insert_one (mongo_insert k) (w\<lparr>clock := clock w + 2\<rparr>) TwitterErrors
          (failure_outcome i (clock w) m) = (r, w1)"
    by (cases "insert_one (mongo_insert k) (w\<lparr>clock := clock w + 2\<rparr>) TwitterErrors
          (failure_outcome i (clock w) m)")
  from a s have "w' = w1" by (auto simp add: record_error_def split: sum.splits)
  with insert_one_nitter_calls[OF s] show ?thesis by simp
qed

text \<open>The handlers.\<close>

lemma except_clauses_cases:
  "except_clauses k w i bound e = (Inl UnboundLocalError, w) \<and> \<not> bound \<and>
     (\<exists>t. e = AttributeError t) \<or>
   (\<exists>m. except_clauses k w i bound e = record_error k w i m)"
  by (cases e) (auto simp add: except_clauses_def)

lemma except_clauses_grows:
  assumes "except_clauses k w i bound e = (out, w')"
  shows "grows i w w'"
proof -
  from except_clauses_cases[of k w i bound e]
  consider "except_clauses k w i bound e = (Inl UnboundLocalError, w)"
    | m where "except_clauses k w i bound e = record_error k w i m" by blast
  then show ?thesis
  proof cases
    case 1
    with assms show ?thesis by simp
  next
    case 2
    with assms have "record_error k w i m = (out, w')" by simp
    then show ?thesis by (rule record_error_grows)
  qed
qed

lemma except_clauses_Inr:
  assumes "except_clauses k w i bound e = (Inr result, w')"
  shows "\<exists>m oid. result = [(''status'', ascii ''error''), (''id'', i), (''error_message'', m)] \<and>
       twitter w' = twitter w \<and> rawdata w' = rawdata w \<and>
       twitter_errors w' = twitter_errors w @
         [(''_id'', VObjectId oid) # failure_outcome i (clock w) m]"
proof -
  from except_clauses_cases[of k w i bound e] assms obtain m where
    "record_error k w i m = (Inr result, w')" by auto
  from record_error_Inr[OF this] show ?thesis by auto
qed

lemma except_clauses_Inl_atomic:
  assumes "atomic_inserts (mongo_insert k)" and "except_clauses k w i bound e = (Inl e', w')"
  shows "same_outcomes w w'"
proof -
  from except_clauses_cases[of k w i bound e]
  consider "except_clauses k w i bound e = (Inl UnboundLocalError, w)"
    | m where "except_clauses k w i bound e = record_error k w i m" by blast
  then show ?thesis
  proof cases
    case 1
    with assms(2) show ?thesis by simp
  next
    case 2
    with assms(2) have "record_error k w i m = (Inl e', w')" by simp
    with assms(1) show ?thesis by (rule record_error_Inl_atomic)
  qed
qed

section \<open>The worker, path by path\<close>

lemma find_one_None_iff: "(find_one coll x = None) = (\<not> (\<exists>d \<in> set coll. has_source_id x d))"
  by (auto simp add: find_one_def find_None_iff)

lemma has_success_outcome_iff:
  "has_success_outcome w x = (\<exists>d \<in> set (twitter w). has_source_id x d)"
  by (simp add: has_success_outcome_def find_one_None_iff)

lemma has_failure_outcome_iff:
  "has_failure_outcome w x = (\<exists>d \<in> set (twitter_errors w). has_source_id x d)"
  by (simp add: has_failure_outcome_def find_one_None_iff)

lemma fetch_Some:
  "fetch k w u = Some out \<Longrightarrow>
   \<exists>a b. search (unicode_decimal k) u = Some (a, b) \<and>
     get_tweet_by_id k (nitter_calls w) a b (nitter_instance k) = out"
  by (auto simp add: fetch_def split: option.splits)

text \<open>The paths through the worker.\<close>

lemma scrape_paths:
  assumes "scrape_and_store_tweet k w i u = (out, w')"
  shows
   "(search (unicode_decimal k) u = None \<and>
      (\<exists>r. out = Inr r \<and>
         record_error k w i (ascii ''Invalid tweet URL format: '' @ u) = (Inr r, w'))) \<or>
    (search (unicode_decimal k) u = None \<and>
      (\<exists>e w1. record_error k w i (ascii ''Invalid tweet URL format: '' @ u) = (Inl e, w1) \<and>
         except_clauses k w1 i False e = (out, w'))) \<or>
    (\<exists>a b c oid. search (unicode_decimal k) u = Some (a, b) \<and>
       get_tweet_by_id k (nitter_calls w) a b (nitter_instance k) = Returns c \<and>
       insert_one (mongo_insert k)
         (w\<lparr>nitter_calls := nitter_calls w @ [(a, b, nitter_instance k)], clock := clock w + 2\<rparr>)
         Twitter (success_outcome i (clock w) c) = (Inr oid, w') \<and>
       out = Inr [(''status'', ascii ''success''), (''id'', i)]) \<or>
    (\<exists>a b c e w2. search (unicode_decimal k) u = Some (a, b) \<and>
       get_tweet_by_id k (nitter_calls w) a b (nitter_instance k) = Returns c \<and>
       insert_one (mongo_insert k)
         (w\<lparr>nitter_calls := nitter_calls w @ [(a, b, nitter_instance k)], clock := clock w + 2\<rparr>)
         Twitter (success_outcome i (clock w) c) = (Inl e, w2) \<and>
       except_clauses k w2 i True e = (out, w')) \<or>
    (\<exists>a b e. search (unicode_decimal k) u = Some (a, b) \<and>
       get_tweet_by_id k (nitter_calls w) a b (nitter_instance k) = Raises e \<and>
       except_clauses k (w\<lparr>nitter_calls := nitter_calls w @ [(a, b, nitter_instance k)]\<rparr>)
         i True e = (out, w'))"
proof (cases "search (unicode_decimal k) u")
  case None
  obtain r w1 where re: "record_error k w i (ascii ''Invalid tweet URL format: '' @ u) = (r, w1)"
    by (cases "record_error k w i (ascii ''Invalid tweet URL format: '' @ u)")
  show ?thesis
  proof (cases r)
    case (Inl e)
    with assms None re have "except_clauses k w1 i False e = (out, w')"
      by (simp add: scrape_and_store_tweet_def)
    with None re Inl show ?thesis by blast
  next
    case (Inr res)
    with assms None re have "out = Inr res" "w' = w1"
      by (simp_all add: scrape_and_store_tweet_def)
    with None re Inr show ?thesis by blast
  qed
next
  case (Some m)
  obtain a b where m: "m = (a, b)" by (cases m)
  let ?w1 = "w\<lparr>nitter_calls := nitter_calls w @ [(a, b, nitter_instance k)]\<rparr>"
  show ?thesis
  proof (cases "get_tweet_by_id k (nitter_calls w) a b (nitter_instance k)")
    case (Raises e)
    with assms Some m have "except_clauses k ?w1 i True e = (out, w')"
      by (simp add: scrape_and_store_tweet_def Let_def)
    with Some m Raises show ?thesis by blast
  next
    case (Returns c)
    obtain r w2 where ins: "insert_one (mongo_insert k)
         (w\<lparr>nitter_calls := nitter_calls w @ [(a, b, nitter_instance k)], clock := clock w + 2\<rparr>)
         Twitter (success_outcome i (clock w) c) = (r, w2)"
      by (cases "insert_one (mongo_insert k)
         (w\<lparr>nitter_calls := nitter_calls w @ [(a, b, nitter_instance k)], clock := clock w + 2\<rparr>)
         Twitter (success_outcome i (clock w) c)")
    show ?thesis
    proof (cases r)
      case (Inl e)
      with assms Some m Returns ins have "except_clauses k w2 i True e = (out, w')"
        by (simp add: scrape_and_store_tweet_def Let_def)
      with Some m Returns ins Inl show ?thesis by blast
    next
      case (Inr oid)
      with assms Some m Returns ins
      have "out = Inr [(''status'', ascii ''success''), (''id'', i)]" "w' = w2"
        by (simp_all add: scrape_and_store_tweet_def Let_def)
      with Some m Returns ins Inr show ?thesis by blast
    qed
  qed
qed

lemma scrape_cases [consumes 1, case_names no_match no_match_raise stored store_raise fetch_raise]:
  assumes "scrape_and_store_tweet k w i u = (out, w')"
  obtains
    r where "search (unicode_decimal k) u = None" "out = Inr r"
      "record_error k w i (ascii ''Invalid tweet URL format: '' @ u) = (Inr r, w')"
  | e w1 where "search (unicode_decimal k) u = None"
      "record_error k w i (ascii ''Invalid tweet URL format: '' @ u) = (Inl e, w1)"
      "except_clauses k w1 i False e = (out, w')"
  | a b c oid where "search (unicode_decimal k) u = Some (a, b)"
      "get_tweet_by_id k (nitter_calls w) a b (nitter_instance k) = Returns c"
      "insert_one (mongo_insert k)
         (w\<lparr>nitter_calls := nitter_calls w @ [(a, b, nitter_instance k)], clock := clock w + 2\<rparr>)
         Twitter (success_outcome i (clock w) c) = (Inr oid, w')"
      "out = Inr [(''status'', ascii ''success''), (''id'', i)]"
  | a b c e w2 where "search (unicode_decimal k) u = Some (a, b)"
      "get_tweet_by_id k (nitter_calls w) a b (nitter_instance k) = Returns c"
      "insert_one (mongo_insert k)
         (w\<lparr>nitter_calls := nitter_calls w @ [(a, b, nitter_instance k)], clock := clock w + 2\<rparr>)
         Twitter (success_outcome i (clock w) c) = (Inl e, w2)"
      "except_clauses k w2 i True e = (out, w')"
  | a b e where "search (unicode_decimal k) u = Some (a, b)"
      "get_tweet_by_id k (nitter_calls w) a b (nitter_instance k) = Raises e"
      "except_clauses k (w\<lparr>nitter_calls := nitter_calls w @ [(a, b, nitter_instance k)]\<rparr>)
         i True e = (out, w')"
  using scrape_paths[OF assms] by blast

lemma scrape_grows:
  assumes "scrape_and_store_tweet k w i u = (out, w')"
  shows "grows i w w'"
  using assms
proof (cases rule: scrape_cases)
  case (no_match r)
  then show ?thesis by (auto dest: record_error_grows)
next
  case (no_match_raise e w1)
  from record_error_grows[OF no_match_raise(2)] except_clauses_grows[OF no_match_raise(3)]
  show ?thesis by (rule grows_trans)
next
  case (stored a b c oid)
  from insert_one_grows[OF _ stored(3), of i] show ?thesis by simp
next
  case (store_raise a b c e w2)
  from insert_one_grows[OF _ store_raise(3), of i] have "grows i w w2" by simp
  from this except_clauses_grows[OF store_raise(4)] show ?thesis by (rule grows_trans)
next
  case (fetch_raise a b e)
  from except_clauses_grows[OF fetch_raise(3)] show ?thesis by simp
qed

text \<open>A call of the worker that returns has stored the outcome it reports.\<close>

lemma scrape_Inr:
  assumes "scrape_and_store_tweet k w i u = (Inr result, w')"
  shows "map_of result ''id'' = Some i \<and>
    (map_of result ''status'' = Some (ascii ''success'') \<and> has_success_outcome w' i \<or>
     map_of result ''status'' = Some (ascii ''error'') \<and> has_failure_outcome w' i)"
  using assms
proof (cases rule: scrape_cases)
  case (no_match r)
  from record_error_Inr[OF no_match(3)] no_match(2) show ?thesis
    by (auto simp add: has_failure_outcome_iff)
next
  case (no_match_raise e w1)
  from except_clauses_Inr[OF no_match_raise(3)] show ?thesis
    by (auto simp add: has_failure_outcome_iff)
next
  case (stored a b c oid)
  from insert_one_Inr[OF stored(3)] stored(4) show ?thesis
    by (auto simp add: has_success_outcome_iff store_document_def)
next
  case (store_raise a b c e w2)
  from except_clauses_Inr[OF store_raise(4)] show ?thesis
    by (auto simp add: has_failure_outcome_iff)
next
  case (fetch_raise a b e)
  from except_clauses_Inr[OF fetch_raise(3)] show ?thesis
    by (auto simp add: has_failure_outcome_iff)
qed


text \<open>The worker over a store whose raising inserts store nothing.\<close>

lemma scrape_atomic:
  assumes at: "atomic_inserts (mongo_insert k)"
    and s: "scrape_and_store_tweet k w i u = (out, w')"
  shows "(\<exists>e. out = Inl e \<and> same_outcomes w w') \<or>
    (\<exists>c oid. out = Inr [(''status'', ascii ''success''), (''id'', i)] \<and>
       fetch k w u = Some (Returns c) \<and> rawdata w' = rawdata w \<and>
       twitter w' = twitter w @ [(''_id'', VObjectId oid) # success_outcome i (clock w) c] \<and>
       twitter_errors w' = twitter_errors w) \<or>
    (\<exists>m oid t. out = Inr [(''status'', ascii ''error''), (''id'', i), (''error_message'', m)] \<and>
       rawdata w' = rawdata w \<and> twitter w' = twitter w \<and>
       twitter_errors w' = twitter_errors w @ [(''_id'', VObjectId oid) # failure_outcome i t m])"
proof -
  {
    fix w1 bound e
    assume so: "same_outcomes w w1" and ec: "except_clauses k w1 i bound e = (out, w')"
    have ?thesis
    proof (cases out)
      case (Inl e')
      with ec have "except_clauses k w1 i bound e = (Inl e', w')" by simp
      from except_clauses_Inl_atomic[OF at this] so have "same_outcomes w w'"
        by (auto dest: same_outcomes_trans)
      with Inl show ?thesis by blast
    next
      case (Inr result)
      with ec have "except_clauses k w1 i bound e = (Inr result, w')" by simp
      from except_clauses_Inr[OF this] so Inr show ?thesis
        by (auto simp add: same_outcomes_def)
    qed
  }
  note handler = this
  from s show ?thesis
  proof (cases rule: scrape_cases)
    case (no_match r)
    from record_error_Inr[OF no_match(3)] no_match(2) show ?thesis by auto
  next
    case (no_match_raise e w1)
    from record_error_Inl_atomic[OF at no_match_raise(2)] no_match_raise(3) show ?thesis
      by (rule handler)
  next
    case (stored a b c oid)
    from stored(1,2) have "fetch k w u = Some (Returns c)" by (simp add: fetch_def)
    with insert_one_Inr[OF stored(3)] stored(4) show ?thesis
      by (auto simp add: store_document_def)
  next
    case (store_raise a b c e w2)
    from insert_one_Inl_atomic[OF at store_raise(3)] have "same_outcomes w w2" by simp
    from this store_raise(4) show ?thesis by (rule handler)
  next
    case (fetch_raise a b e)
    have "same_outcomes w (w\<lparr>nitter_calls := nitter_calls w @ [(a, b, nitter_instance k)]\<rparr>)"
      by (simp add: same_outcomes_def)
    from this fetch_raise(3) show ?thesis by (rule handler)
  qed
qed

text \<open>The worker over a store no insert of which raises.\<close>

lemma insert_one_accepts:
  "accepts_inserts db \<Longrightarrow> insert_one db w coll doc \<noteq> (Inl e, w')"
proof
  assume a: "accepts_inserts db" and b: "insert_one db w coll doc = (Inl e, w')"
  from a obtain oid where "db (insert_calls w) coll doc = Inserted oid"
    unfolding accepts_inserts_def by blast
  with insert_one_Inserted[of db w coll doc oid] b show False by simp
qed

lemma record_error_accepts:
  "accepts_inserts (mongo_insert k) \<Longrightarrow> record_error k w i m \<noteq> (Inl e, w')"
proof
  assume a: "accepts_inserts (mongo_insert k)" and b: "record_error k w i m = (Inl e, w')"
  from a obtain oid where
    "mongo_insert k (insert_calls w) TwitterErrors (failure_outcome i (clock w) m) = Inserted oid"
    unfolding accepts_inserts_def by blast
  from record_error_Inserted[OF this] b show False by simp
qed

lemma except_clauses_accepts:
  assumes "accepts_inserts (mongo_insert k)"
  shows "except_clauses k w i True e \<noteq> (Inl e', w')"
proof
  assume b: "except_clauses k w i True e = (Inl e', w')"
  from except_clauses_cases[of k w i True e] obtain m where
    "except_clauses k w i True e = record_error k w i m" by auto
  with b have "record_error k w i m = (Inl e', w')" by simp
  with record_error_accepts[OF assms] show False by blast
qed

lemma accepts_atomic: "accepts_inserts db \<Longrightarrow> atomic_inserts db"
  unfolding accepts_inserts_def atomic_inserts_def
proof (intro allI)
  fix calls coll doc e oid
  assume "\<forall>calls coll doc. \<exists>oid. db calls coll doc = Inserted oid"
  then obtain oid' where "db calls coll doc = Inserted oid'" by blast
  then show "db calls coll doc \<noteq> InsertRaises e (Some oid)" by simp
qed

lemma scrape_accepts:
  assumes ac: "accepts_inserts (mongo_insert k)"
    and s: "scrape_and_store_tweet k w i u = (out, w')"
  shows "((\<exists>c. fetch k w u = Some (Returns c)) \<and>
          (\<exists>doc. has_source_id i doc \<and>
             out = Inr [(''status'', ascii ''success''), (''id'', i)] \<and>
             twitter w' = twitter w @ [doc] \<and> twitter_errors w' = twitter_errors w)) \<or>
         ((search (unicode_decimal k) u = None \<or> (\<exists>e. fetch k w u = Some (Raises e))) \<and>
          (\<exists>doc m. has_source_id i doc \<and>
             out = Inr [(''status'', ascii ''error''), (''id'', i), (''error_message'', m)] \<and>
             twitter w' = twitter w \<and> twitter_errors w' = twitter_errors w @ [doc]))"
  using s
proof (cases rule: scrape_cases)
  case (no_match r)
  from record_error_Inr[OF no_match(3)] no_match(1,2) show ?thesis by auto
next
  case (no_match_raise e w1)
  with record_error_accepts[OF ac] show ?thesis by blast
next
  case (stored a b c oid)
  from stored(1,2) have "fetch k w u = Some (Returns c)" by (simp add: fetch_def)
  with insert_one_Inr[OF stored(3)] stored(4) show ?thesis
    by (auto simp add: store_document_def)
next
  case (store_raise a b c e w2)
  with insert_one_accepts[OF ac] show ?thesis by blast
next
  case (fetch_raise a b e)
  from fetch_raise(1,2) have f: "fetch k w u = Some (Raises e)" by (simp add: fetch_def)
  show ?thesis
  proof (cases out)
    case (Inl e')
    with fetch_raise(3) except_clauses_accepts[OF ac] show ?thesis by blast
  next
    case (Inr result)
    with fetch_raise(3)
    have "except_clauses k (w\<lparr>nitter_calls := nitter_calls w @ [(a, b, nitter_instance k)]\<rparr>)
         i True e = (Inr result, w')" by simp
    from except_clauses_Inr[OF this] obtain m oid where
      "result = [(''status'', ascii ''error''), (''id'', i), (''error_message'', m)]"
      "twitter w' = twitter w"
      "twitter_errors w' = twitter_errors w @
         [(''_id'', VObjectId oid) # failure_outcome i (clock w) m]" by auto
    moreover have "has_source_id i ((''_id'', VObjectId oid) # failure_outcome i (clock w) m)"
      by simp
    ultimately show ?thesis using f Inr by blast
  qed
qed

section \<open>The loop body\<close>

lemma has_source_id_other: "has_source_id i d \<Longrightarrow> x \<noteq> i \<Longrightarrow> \<not> has_source_id x d"
  by (auto simp add: has_source_id_def)


lemma grows_mono:
  "grows i w w' \<Longrightarrow> has_success_outcome w x \<or> has_failure_outcome w x \<Longrightarrow>
   has_success_outcome w' x \<or> has_failure_outcome w' x"
  by (auto simp add: grows_def has_success_outcome_iff has_failure_outcome_iff)

lemma grows_frame:
  assumes "grows i w w'" and "x \<noteq> i"
  shows "filter (has_source_id x) (twitter w') = filter (has_source_id x) (twitter w) \<and>
         filter (has_source_id x) (twitter_errors w') = filter (has_source_id x) (twitter_errors w)"
proof -
  from assms(1) obtain ds es where
    d: "twitter w' = twitter w @ ds" "list_all (has_source_id i) ds"
    and e: "twitter_errors w' = twitter_errors w @ es" "list_all (has_source_id i) es"
    by (auto simp add: grows_def)
  from d(2) assms(2) have "filter (has_source_id x) ds = []"
    by (auto simp add: list_all_iff filter_empty_conv has_source_id_other)
  moreover from e(2) assms(2) have "filter (has_source_id x) es = []"
    by (auto simp add: list_all_iff filter_empty_conv has_source_id_other)
  ultimately show ?thesis using d(1) e(1) by simp
qed

text \<open>The loop body, branch by branch.\<close>

lemma loop_body_processed:
  "find_one (twitter w) (sr_id r) \<noteq> None \<Longrightarrow>
   loop_body k (acc, w) r =
     (Inr (acc\<lparr>skipped := skipped acc + 1,
               results := results acc @
                 [[(''status'', ascii ''already_processed''), (''id'', sr_id r),
                   (''message'', ascii ''Tweet already successfully processed.'')]]\<rparr>), w)"
  by (auto simp add: loop_body_def Let_def)

lemma loop_body_in_error:
  "find_one (twitter w) (sr_id r) = None \<Longrightarrow> find_one (twitter_errors w) (sr_id r) \<noteq> None \<Longrightarrow>
   loop_body k (acc, w) r =
     (Inr (acc\<lparr>skipped := skipped acc + 1,
               results := results acc @
                 [[(''status'', ascii ''already_in_error''), (''id'', sr_id r),
                   (''message'', ascii ''Tweet previously failed to process.'')]]\<rparr>), w)"
  by (auto simp add: loop_body_def Let_def)

lemma loop_body_pending:
  "find_one (twitter w) (sr_id r) = None \<Longrightarrow> find_one (twitter_errors w) (sr_id r) = None \<Longrightarrow>
   loop_body k (acc, w) r =
     (case scrape_and_store_tweet k w (sr_id r) (sr_message r) of
        (Inl e, w') \<Rightarrow> (Inl e, w')
      | (Inr result, w') \<Rightarrow>
          if map_of result ''status'' = Some (ascii ''success'')
          then (Inr (acc\<lparr>results := results acc @ [result], processed := processed acc + 1\<rparr>), w')
          else (Inr (acc\<lparr>results := results acc @ [result], errored := errored acc + 1\<rparr>), w'))"
  by (simp add: loop_body_def Let_def split: prod.splits sum.splits)

lemma loop_body_cases [consumes 1, case_names skipped_record raised returned]:
  assumes "loop_body k (acc, w) r = (out, w')"
  obtains
    acc' where "has_success_outcome w (sr_id r) \<or> has_failure_outcome w (sr_id r)"
      "out = Inr acc'" "w' = w"
  | e where "\<not> has_success_outcome w (sr_id r)" "\<not> has_failure_outcome w (sr_id r)"
      "scrape_and_store_tweet k w (sr_id r) (sr_message r) = (Inl e, w')" "out = Inl e"
  | result where "\<not> has_success_outcome w (sr_id r)" "\<not> has_failure_outcome w (sr_id r)"
      "scrape_and_store_tweet k w (sr_id r) (sr_message r) = (Inr result, w')"
      "out = Inr (if map_of result ''status'' = Some (ascii ''success'')
                  then acc\<lparr>results := results acc @ [result], processed := processed acc + 1\<rparr>
                  else acc\<lparr>results := results acc @ [result], errored := errored acc + 1\<rparr>)"
proof (cases "find_one (twitter w) (sr_id r) = None")
  case False
  then have h: "has_success_outcome w (sr_id r) \<or> has_failure_outcome w (sr_id r)"
    by (simp add: has_success_outcome_def)
  from loop_body_processed[OF False, of k acc] assms
  obtain acc' where "out = Inr acc'" "w' = w" by auto
  with h show ?thesis by (rule that(1))
next
  case t: True
  show ?thesis
  proof (cases "find_one (twitter_errors w) (sr_id r) = None")
    case False
    then have h: "has_success_outcome w (sr_id r) \<or> has_failure_outcome w (sr_id r)"
      by (simp add: has_failure_outcome_def)
    from loop_body_in_error[OF t False, of k acc] assms
    obtain acc' where "out = Inr acc'" "w' = w" by auto
    with h show ?thesis by (rule that(1))
  next
    case e: True
    from t e have n: "\<not> has_success_outcome w (sr_id r)" "\<not> has_failure_outcome w (sr_id r)"
      by (simp_all add: has_success_outcome_def has_failure_outcome_def)
    obtain outc w1 where s: "scrape_and_store_tweet k w (sr_id r) (sr_message r) = (outc, w1)"
      by (cases "scrape_and_store_tweet k w (sr_id r) (sr_message r)")
    show ?thesis
    proof (cases outc)
      case (Inl ex)
      with assms s have o: "out = Inl ex" and w: "w' = w1"
        unfolding loop_body_pending[OF t e] by simp_all
      from s Inl w have "scrape_and_store_tweet k w (sr_id r) (sr_message r) = (Inl ex, w')"
        by simp
      with n show ?thesis using o by (rule that(2))
    next
      case (Inr result)
      with assms s have o: "out = Inr (if map_of result ''status'' = Some (ascii ''success'')
                  then acc\<lparr>results := results acc @ [result], processed := processed acc + 1\<rparr>
                  else acc\<lparr>results := results acc @ [result], errored := errored acc + 1\<rparr>)"
        and w: "w' = w1"
        unfolding loop_body_pending[OF t e] by (simp_all split: if_splits)
      from s Inr w have "scrape_and_store_tweet k w (sr_id r) (sr_message r) = (Inr result, w')"
        by simp
      with n show ?thesis using o by (rule that(3))
    qed
  qed
qed

lemma loop_body_skip:
  assumes "has_success_outcome w (sr_id r) \<or> has_failure_outcome w (sr_id r)"
  shows "\<exists>acc' nt. loop_body k (acc, w) r = (Inr acc', w) \<and>
    processed acc' = processed acc \<and> errored acc' = errored acc \<and>
    skipped acc' = skipped acc + 1 \<and> results acc' = results acc @ [nt] \<and> is_skip_note nt"
proof (cases "find_one (twitter w) (sr_id r) = None")
  case False
  then show ?thesis by (simp add: loop_body_processed is_skip_note_def)
next
  case True
  with assms have "find_one (twitter_errors w) (sr_id r) \<noteq> None"
    by (simp add: has_success_outcome_def has_failure_outcome_def)
  with True show ?thesis by (simp add: loop_body_in_error is_skip_note_def)
qed

lemma loop_body_grows:
  assumes "loop_body k (acc, w) r = (out, w')"
  shows "grows (sr_id r) w w'"
  using assms
proof (cases rule: loop_body_cases)
  case (skipped_record acc')
  then show ?thesis by simp
next
  case (raised e)
  then show ?thesis by (auto dest: scrape_grows)
next
  case (returned result)
  then show ?thesis by (auto dest: scrape_grows)
qed

text \<open>A pass of the loop body that returns: the counters, the results and the outcome.\<close>

lemma loop_body_Inr:
  assumes "loop_body k (acc, w) r = (Inr acc', w')"
  shows "processed acc' + errored acc' + skipped acc' =
           processed acc + errored acc + skipped acc + 1 \<and>
         (\<exists>res. results acc' = results acc @ [res] \<and> map_of res ''id'' = Some (sr_id r)) \<and>
         (has_success_outcome w' (sr_id r) \<or> has_failure_outcome w' (sr_id r))"
  using assms
proof (cases rule: loop_body_cases)
  case (skipped_record acc'')
  from loop_body_skip[OF skipped_record(1), of k acc] assms obtain nt where
    "processed acc' = processed acc" "errored acc' = errored acc"
    "skipped acc' = skipped acc + 1" "results acc' = results acc @ [nt]" by auto
  moreover from assms skipped_record(1) have "map_of (last (results acc')) ''id'' = Some (sr_id r)"
    by (cases "find_one (twitter w) (sr_id r) = None")
       (auto simp add: loop_body_processed loop_body_in_error
          has_success_outcome_def has_failure_outcome_def)
  ultimately show ?thesis using skipped_record by auto
next
  case (raised e)
  then show ?thesis by simp
next
  case (returned result)
  from scrape_Inr[OF returned(3)] returned(4) show ?thesis by (auto split: if_splits)
qed

lemma loop_body_frame:
  assumes "loop_body k (acc, w) r = (out, w')"
    and "has_success_outcome w x \<or> has_failure_outcome w x"
  shows "filter (has_source_id x) (twitter w') = filter (has_source_id x) (twitter w) \<and>
         filter (has_source_id x) (twitter_errors w') = filter (has_source_id x) (twitter_errors w)"
proof (cases "x = sr_id r")
  case True
  with assms(2) loop_body_skip[of w r k acc] assms(1) show ?thesis by auto
next
  case False
  from grows_frame[OF loop_body_grows[OF assms(1)] False] show ?thesis .
qed

text \<open>Over a store whose raising inserts store nothing, the loop body keeps the outcomes of
  every source id exclusive.\<close>

lemma loop_body_exclusive:
  assumes at: "atomic_inserts (mongo_insert k)"
    and l: "loop_body k (acc, w) r = (out, w')"
    and ex: "\<not> (has_success_outcome w x \<and> has_failure_outcome w x)"
  shows "\<not> (has_success_outcome w' x \<and> has_failure_outcome w' x)"
proof -
  {
    fix outc
    assume n: "\<not> has_success_outcome w (sr_id r)" "\<not> has_failure_outcome w (sr_id r)"
      and s: "scrape_and_store_tweet k w (sr_id r) (sr_message r) = (outc, w')"
    have ?thesis
    proof (cases "x = sr_id r")
      case True
      with scrape_atomic[OF at s] n show ?thesis
        by (auto simp add: has_success_outcome_iff has_failure_outcome_iff same_outcomes_def)
    next
      case False
      from grows_frame[OF scrape_grows[OF s] False] ex show ?thesis
        by (auto simp add: has_success_outcome_iff has_failure_outcome_iff filter_empty_conv
            dest!: arg_cong[where f = set])
    qed
  }
  note pending = this
  from l show ?thesis
  proof (cases rule: loop_body_cases)
    case (skipped_record acc')
    with ex show ?thesis by simp
  next
    case (raised e)
    from pending[OF raised(1,2,3)] show ?thesis .
  next
    case (returned result)
    from pending[OF returned(1,2,3)] show ?thesis .
  qed
qed

section \<open>The loop and the endpoint\<close>

text \<open>The loop, one record at a time.\<close>

lemma for_loop_Cons:
  assumes "for_loop k (acc, w) (r # rs) = (out, w')"
  shows "(\<exists>e. loop_body k (acc, w) r = (Inl e, w') \<and> out = Inl e) \<or>
         (\<exists>acc1 w1. loop_body k (acc, w) r = (Inr acc1, w1) \<and>
            for_loop k (acc1, w1) rs = (out, w'))"
proof -
  obtain o1 w1 where b: "loop_body k (acc, w) r = (o1, w1)"
    by (cases "loop_body k (acc, w) r")
  show ?thesis
  proof (cases o1)
    case (Inl e)
    with assms b show ?thesis by auto
  next
    case (Inr acc1)
    with assms b show ?thesis by auto
  qed
qed



lemma for_loop_frame:
  "for_loop k (acc, w) rs = (out, w') \<Longrightarrow>
   has_success_outcome w x \<or> has_failure_outcome w x \<Longrightarrow>
   filter (has_source_id x) (twitter w') = filter (has_source_id x) (twitter w) \<and>
   filter (has_source_id x) (twitter_errors w') = filter (has_source_id x) (twitter_errors w)"
proof (induction rs arbitrary: acc w)
  case Nil
  then show ?case by simp
next
  case (Cons r rs)
  from for_loop_Cons[OF Cons.prems(1)] show ?case
  proof (elim disjE exE conjE)
    fix e assume "loop_body k (acc, w) r = (Inl e, w')"
    from loop_body_frame[OF this Cons.prems(2)] show ?thesis .
  next
    fix acc1 w1
    assume b: "loop_body k (acc, w) r = (Inr acc1, w1)"
      and l: "for_loop k (acc1, w1) rs = (out, w')"
    from Cons.IH[OF l grows_mono[OF loop_body_grows[OF b] Cons.prems(2)]]
      loop_body_frame[OF b Cons.prems(2)]
    show ?thesis by simp
  qed
qed

lemma for_loop_exclusive:
  "atomic_inserts (mongo_insert k) \<Longrightarrow> for_loop k (acc, w) rs = (out, w') \<Longrightarrow>
   \<not> (has_success_outcome w x \<and> has_failure_outcome w x) \<Longrightarrow>
   \<not> (has_success_outcome w' x \<and> has_failure_outcome w' x)"
proof (induction rs arbitrary: acc w)
  case Nil
  then show ?case by simp
next
  case (Cons r rs)
  from for_loop_Cons[OF Cons.prems(2)] show ?case
  proof (elim disjE exE conjE)
    fix e assume "loop_body k (acc, w) r = (Inl e, w')"
    from loop_body_exclusive[OF Cons.prems(1) this Cons.prems(3)] show ?thesis .
  next
    fix acc1 w1
    assume b: "loop_body k (acc, w) r = (Inr acc1, w1)"
      and l: "for_loop k (acc1, w1) rs = (out, w')"
    from Cons.IH[OF Cons.prems(1) l loop_body_exclusive[OF Cons.prems(1) b Cons.prems(3)]]
    show ?thesis .
  qed
qed

lemma for_loop_counts:
  "for_loop k (acc, w) rs = (Inr acc', w') \<Longrightarrow>
   processed acc' + errored acc' + skipped acc' =
     processed acc + errored acc + skipped acc + int (length rs) \<and>
   length (results acc') = length (results acc) + length rs \<and>
   map (\<lambda>res. map_of res ''id'') (results acc') =
     map (\<lambda>res. map_of res ''id'') (results acc) @ map (\<lambda>r. Some (sr_id r)) rs"
proof (induction rs arbitrary: acc w)
  case Nil
  then show ?case by simp
next
  case (Cons r rs)
  from for_loop_Cons[OF Cons.prems] obtain acc1 w1 where
    b: "loop_body k (acc, w) r = (Inr acc1, w1)"
    and l: "for_loop k (acc1, w1) rs = (Inr acc', w')" by auto
  from Cons.IH[OF l] loop_body_Inr[OF b] show ?case by auto
qed



text \<open>The endpoint as a run of the loop.\<close>

lemma endpoint_Inr:
  assumes "process_tweets_endpoint d n k w = (Inr s, w')"
  shows "d \<and> n \<and> (\<exists>acc.
      for_loop k (\<lparr>processed = 0, errored = 0, skipped = 0, results = []\<rparr>, w)
        (responses_cursor w) = (Inr acc, w') \<and>
      s = \<lparr>message = ascii ''Tweet processing completed.'',
           processed_count = processed acc,
           error_count = errored acc,
           skipped_count = skipped acc,
           total_attempted_or_skipped = processed acc + errored acc + skipped acc,
           details = results acc\<rparr>)"
  using assms
  by (auto simp add: process_tweets_endpoint_def split: if_splits prod.splits sum.splits)

lemma endpoint_world:
  assumes "process_tweets_endpoint d n k w = (out, w')"
  shows "w' = w \<or> (\<exists>res.
      for_loop k (\<lparr>processed = 0, errored = 0, skipped = 0, results = []\<rparr>, w)
        (responses_cursor w) = (res, w'))"
  using assms
  by (auto simp add: process_tweets_endpoint_def split: if_splits prod.splits sum.splits)



section \<open>The search and the post references of a text\<close>

lemma strip_prefix_iff: "(strip_prefix p s = Some r) = (s = p @ r)"
  by (induction p s rule: strip_prefix.induct) auto

lemma strip_prefix_append [simp]: "strip_prefix p (p @ r) = Some r"
  by (simp add: strip_prefix_iff)

lemma takeWhile_run:
  "list_all P xs \<Longrightarrow> ys = [] \<or> \<not> P (hd ys) \<Longrightarrow> takeWhile P (xs @ ys) = xs"
  by (cases ys) (simp_all add: list_all_iff)

lemma dropWhile_run:
  "list_all P xs \<Longrightarrow> ys = [] \<or> \<not> P (hd ys) \<Longrightarrow> dropWhile P (xs @ ys) = ys"
  by (cases ys) (simp_all add: list_all_iff)

lemma match_at_intro:
  assumes h: "is_handle h" and d: "is_numeric_id nd d" and p: "post = [] \<or> \<not> (is_digit nd) (hd post)"
  shows "match_at nd (post_reference h d @ post) = Some (h, d)"
proof -
  let ?s1 = "h @ ascii ''/status/'' @ d @ post"
  have s: "post_reference h d @ post = ascii ''twitter.com/'' @ ?s1"
    by (simp add: post_reference_def)
  have "\<not> not_slash (hd (ascii ''/status/'' @ d @ post))" by (simp add: not_slash_def ascii_def)
  with h have t: "takeWhile not_slash ?s1 = h" and dr: "dropWhile not_slash ?s1 = ascii ''/status/'' @ d @ post"
    by (simp_all add: is_handle_def takeWhile_run dropWhile_run)
  from d p have td: "takeWhile (is_digit nd) (d @ post) = d"
    by (simp add: is_numeric_id_def takeWhile_run)
  have sp1: "strip_prefix (ascii ''twitter.com/'') (post_reference h d @ post) = Some ?s1"
    unfolding s by (rule strip_prefix_append)
  have sp2: "strip_prefix (ascii ''/status/'') (dropWhile not_slash ?s1) = Some (d @ post)"
    unfolding dr by (rule strip_prefix_append)
  from h d show ?thesis
    unfolding match_at_def sp1 option.case Let_def t sp2 td
    by (simp add: is_handle_def is_numeric_id_def)
qed

lemma match_at_elim:
  assumes "match_at nd s = Some (h, d)"
  shows "\<exists>post. s = post_reference h d @ post \<and> is_handle h \<and> is_numeric_id nd d \<and>
           (post = [] \<or> \<not> (is_digit nd) (hd post))"
proof -
  from assms obtain s1 where s1: "strip_prefix (ascii ''twitter.com/'') s = Some s1"
    by (auto simp add: match_at_def split: option.splits)
  from assms s1 have hne: "takeWhile not_slash s1 \<noteq> []"
    by (auto simp add: match_at_def Let_def split: if_splits)
  from assms s1 hne obtain s2 where s2: "strip_prefix (ascii ''/status/'') (dropWhile not_slash s1) = Some s2"
    by (auto simp add: match_at_def Let_def split: option.splits)
  from assms s1 hne s2 have dne: "takeWhile (is_digit nd) s2 \<noteq> []"
    and hd: "h = takeWhile not_slash s1" "d = takeWhile (is_digit nd) s2"
    by (auto simp add: match_at_def Let_def split: if_splits)
  have "s1 = takeWhile not_slash s1 @ dropWhile not_slash s1" by simp
  also have "dropWhile not_slash s1 = ascii ''/status/'' @ s2" using s2 by (simp only: strip_prefix_iff)
  also have "s2 = takeWhile (is_digit nd) s2 @ dropWhile (is_digit nd) s2" by simp
  finally have "s1 = h @ ascii ''/status/'' @ d @ dropWhile (is_digit nd) s2" using hd by simp
  moreover have "s = ascii ''twitter.com/'' @ s1" using s1 by (simp only: strip_prefix_iff)
  ultimately have "s = post_reference h d @ dropWhile (is_digit nd) s2"
    by (simp add: post_reference_def)
  moreover have "is_handle h" using hne hd
    by (auto simp add: is_handle_def list_all_iff dest: set_takeWhileD)
  moreover have "is_numeric_id nd d" using dne hd
    by (auto simp add: is_numeric_id_def list_all_iff dest: set_takeWhileD)
  moreover have "dropWhile (is_digit nd) s2 = [] \<or> \<not> (is_digit nd) (hd (dropWhile (is_digit nd) s2))"
    using hd_dropWhile[of "is_digit nd" s2] by blast
  ultimately show ?thesis by blast
qed

text \<open>A reference at the head of the text is found, with the longest run of digits as its id.\<close>

lemma match_at_reference:
  assumes h: "is_handle h" and d: "is_numeric_id nd d"
  shows "match_at nd (post_reference h d @ post) =
           Some (h, d @ takeWhile (is_digit nd) post)"
proof -
  have n: "is_numeric_id nd (d @ takeWhile (is_digit nd) post)" using d
    by (auto simp add: is_numeric_id_def list_all_iff dest: set_takeWhileD)
  have e: "dropWhile (is_digit nd) post = [] \<or> \<not> (is_digit nd) (hd (dropWhile (is_digit nd) post))"
    using hd_dropWhile[of "is_digit nd" post] by blast
  have "post_reference h d @ post =
          post_reference h (d @ takeWhile (is_digit nd) post) @ dropWhile (is_digit nd) post"
    by (simp add: post_reference_def)
  with match_at_intro[OF h n e] show ?thesis by simp
qed

lemma search_None_iff:
  "(search nd msg = None) = (\<forall>pre s. msg = pre @ s \<longrightarrow> match_at nd s = None)"
proof (induction msg)
  case Nil
  then show ?case by simp
next
  case (Cons c cs)
  show ?case
  proof
    assume a: "search nd (c # cs) = None"
    then have m: "match_at nd (c # cs) = None" and r: "search nd cs = None"
      by (auto split: option.splits)
    show "\<forall>pre s. c # cs = pre @ s \<longrightarrow> match_at nd s = None"
    proof (intro allI impI)
      fix pre s assume e: "c # cs = pre @ s"
      show "match_at nd s = None"
      proof (cases pre)
        case Nil
        with e m show ?thesis by simp
      next
        case (Cons p ps)
        with e have "cs = ps @ s" by simp
        with r Cons.IH show ?thesis by blast
      qed
    qed
  next
    assume a: "\<forall>pre s. c # cs = pre @ s \<longrightarrow> match_at nd s = None"
    then have m: "match_at nd (c # cs) = None" by (metis append_Nil)
    have "\<forall>pre s. cs = pre @ s \<longrightarrow> match_at nd s = None"
      using a by (metis append_Cons)
    with Cons.IH have "search nd cs = None" by simp
    with m show "search nd (c # cs) = None" by simp
  qed
qed

lemma search_Some_iff:
  "(search nd msg = Some m) =
     (\<exists>pre s. msg = pre @ s \<and> match_at nd s = Some m \<and>
        (\<forall>pre' s'. msg = pre' @ s' \<and> length pre' < length pre \<longrightarrow> match_at nd s' = None))"
proof (induction msg)
  case Nil
  then show ?case by auto
next
  case (Cons c cs)
  show ?case
  proof (cases "match_at nd (c # cs)")
    case (Some m')
    show ?thesis
    proof
      assume "search nd (c # cs) = Some m"
      with Some have "match_at nd (c # cs) = Some m" by simp
      then have "c # cs = [] @ (c # cs) \<and> match_at nd (c # cs) = Some m \<and>
        (\<forall>pre' s'. c # cs = pre' @ s' \<and> length pre' < length ([]::str) \<longrightarrow> match_at nd s' = None)"
        by simp
      then show "\<exists>pre s. c # cs = pre @ s \<and> match_at nd s = Some m \<and>
        (\<forall>pre' s'. c # cs = pre' @ s' \<and> length pre' < length pre \<longrightarrow> match_at nd s' = None)"
        by blast
    next
      assume "\<exists>pre s. c # cs = pre @ s \<and> match_at nd s = Some m \<and>
        (\<forall>pre' s'. c # cs = pre' @ s' \<and> length pre' < length pre \<longrightarrow> match_at nd s' = None)"
      then obtain pre s where e: "c # cs = pre @ s" and ms: "match_at nd s = Some m"
        and l: "\<forall>pre' s'. c # cs = pre' @ s' \<and> length pre' < length pre \<longrightarrow> match_at nd s' = None"
        by blast
      have "pre = []"
      proof (rule ccontr)
        assume "pre \<noteq> []"
        then have "length ([]::str) < length pre" by simp
        with l have "match_at nd (c # cs) = None" by (metis append_Nil)
        with Some show False by simp
      qed
      with e have "s = c # cs" by simp
      with ms show "search nd (c # cs) = Some m" by simp
    qed
  next
    case None
    then have sc: "search nd (c # cs) = search nd cs" by simp
    show ?thesis
    proof
      assume "search nd (c # cs) = Some m"
      with sc Cons.IH obtain pre s where e: "cs = pre @ s" and ms: "match_at nd s = Some m"
        and l: "\<forall>pre' s'. cs = pre' @ s' \<and> length pre' < length pre \<longrightarrow> match_at nd s' = None"
        by auto
      have "\<forall>pre' s'. c # cs = pre' @ s' \<and> length pre' < length (c # pre) \<longrightarrow> match_at nd s' = None"
      proof (intro allI impI)
        fix pre' s' assume a: "c # cs = pre' @ s' \<and> length pre' < length (c # pre)"
        show "match_at nd s' = None"
        proof (cases pre')
          case Nil
          with a None show ?thesis by simp
        next
          case (Cons p ps)
          with a have "cs = ps @ s' \<and> length ps < length pre" by simp
          with l show ?thesis by blast
        qed
      qed
      with e ms have "c # cs = (c # pre) @ s \<and> match_at nd s = Some m \<and>
        (\<forall>pre' s'. c # cs = pre' @ s' \<and> length pre' < length (c # pre) \<longrightarrow> match_at nd s' = None)"
        by simp
      then show "\<exists>pre s. c # cs = pre @ s \<and> match_at nd s = Some m \<and>
        (\<forall>pre' s'. c # cs = pre' @ s' \<and> length pre' < length pre \<longrightarrow> match_at nd s' = None)"
        by blast
    next
      assume "\<exists>pre s. c # cs = pre @ s \<and> match_at nd s = Some m \<and>
        (\<forall>pre' s'. c # cs = pre' @ s' \<and> length pre' < length pre \<longrightarrow> match_at nd s' = None)"
      then obtain pre s where e: "c # cs = pre @ s" and ms: "match_at nd s = Some m"
        and l: "\<forall>pre' s'. c # cs = pre' @ s' \<and> length pre' < length pre \<longrightarrow> match_at nd s' = None"
        by blast
      from e ms None obtain ps where p: "pre = c # ps" and e': "cs = ps @ s"
        by (cases pre) auto
      have "\<forall>pre' s'. cs = pre' @ s' \<and> length pre' < length ps \<longrightarrow> match_at nd s' = None"
      proof (intro allI impI)
        fix pre' s' assume "cs = pre' @ s' \<and> length pre' < length ps"
        then have "c # cs = (c # pre') @ s' \<and> length (c # pre') < length pre" using p by simp
        with l show "match_at nd s' = None" by blast
      qed
      with e' ms Cons.IH have "search nd cs = Some m" by blast
      with sc show "search nd (c # cs) = Some m" by simp
    qed
  qed
qed

section \<open>The text each handler writes\<close>

lemma except_clauses_bound:
  "except_clauses k w i True e =
     record_error k w i
       (case e of
          AttributeError t \<Rightarrow> ascii ''Nitter scraping failed (AttributeError): '' @ t
        | UnboundLocalError \<Rightarrow> ascii ''An unexpected error occurred: '' @ str_of_exn e
        | OtherException t \<Rightarrow> ascii ''An unexpected error occurred: '' @ str_of_exn e)"
  by (cases e) (simp_all add: except_clauses_def)

lemma scrape_fetch_raises:
  assumes f: "fetch k w u = Some (Raises e)"
    and s: "scrape_and_store_tweet k w i u = (out, w')"
  shows "record_error k (w\<lparr>nitter_calls := nitter_calls w @
             [(fst (the (search (unicode_decimal k) u)), snd (the (search (unicode_decimal k) u)),
               nitter_instance k)]\<rparr>) i
       (case e of
          AttributeError t \<Rightarrow> ascii ''Nitter scraping failed (AttributeError): '' @ t
        | UnboundLocalError \<Rightarrow> ascii ''An unexpected error occurred: '' @ str_of_exn e
        | OtherException t \<Rightarrow> ascii ''An unexpected error occurred: '' @ str_of_exn e) = (out, w')"
proof -
  from fetch_Some[OF f] obtain a b where
    sa: "search (unicode_decimal k) u = Some (a, b)"
    and ga: "get_tweet_by_id k (nitter_calls w) a b (nitter_instance k) = Raises e" by blast
  from s sa ga
  have "except_clauses k (w\<lparr>nitter_calls := nitter_calls w @ [(a, b, nitter_instance k)]\<rparr>)
          i True e = (out, w')"
    by (simp add: scrape_and_store_tweet_def Let_def)
  with sa show ?thesis by (simp add: except_clauses_bound)
qed

lemma scrape_fetch_raises_Inr:
  assumes f: "fetch k w u = Some (Raises e)"
    and s: "scrape_and_store_tweet k w i u = (Inr result, w')"
  shows "\<exists>oid m. m = (case e of
          AttributeError t \<Rightarrow> ascii ''Nitter scraping failed (AttributeError): '' @ t
        | UnboundLocalError \<Rightarrow> ascii ''An unexpected error occurred: '' @ str_of_exn e
        | OtherException t \<Rightarrow> ascii ''An unexpected error occurred: '' @ str_of_exn e) \<and>
      result = [(''status'', ascii ''error''), (''id'', i), (''error_message'', m)] \<and>
      twitter w' = twitter w \<and>
      twitter_errors w' = twitter_errors w @
        [(''_id'', VObjectId oid) # failure_outcome i (clock w) m]"
  using record_error_Inr[OF scrape_fetch_raises[OF f s]] by auto

section \<open>The examples of the specification\<close>

lemma search_alice:
  "search nd (ascii ''https://twitter.com/alice/status/12345'') =
     Some (ascii ''alice'', ascii ''12345'')"
  by (simp add: ascii_def match_at_def is_digit_def not_slash_def)

lemma search_bob:
  "search nd (ascii ''check out this link http://twitter.com/bob_2/status/99'') =
     Some (ascii ''bob_2'', ascii ''99'')"
  by (simp add: ascii_def match_at_def is_digit_def not_slash_def)

lemma search_no_url: "search nd (ascii ''no url here'') = None"
  by (simp add: ascii_def match_at_def)

section \<open>The cursor and the literal text\<close>

lemma atoms_match_at_literal:
  "strip_prefix (map to_lower p) (map to_lower s) \<noteq> None \<Longrightarrow> atoms_match_at (regex_atoms p) s"
proof (induction p arbitrary: s)
  case Nil
  then show ?case by (simp add: regex_atoms_def)
next
  case (Cons a p)
  then obtain c cs where s: "s = c # cs" by (cases s) auto
  with Cons.prems have l: "to_lower a = to_lower c"
    and r: "strip_prefix (map to_lower p) (map to_lower cs) \<noteq> None"
    by (auto split: if_splits)
  have "to_lower 10 \<noteq> to_lower (of_char CHR ''.'')" by (simp add: to_lower_def)
  with l have "a = of_char CHR ''.'' \<longrightarrow> c \<noteq> 10" by auto
  with l s Cons.IH[OF r] show ?case by (simp add: regex_atoms_def)
qed

lemma cursor_visits_every_message_with_the_literal:
  "contains_ignoring_case p s \<Longrightarrow> regex_i (regex_atoms p) s"
  unfolding contains_ignoring_case_def
proof (induction s)
  case Nil
  then show ?case using atoms_match_at_literal[of p "[]"] by simp
next
  case (Cons c cs)
  then show ?case using atoms_match_at_literal[of p "c # cs"] by auto
qed

lemma cursor_visits_literal:
  "response \<in> set (rawdata w) \<Longrightarrow>
   contains_ignoring_case (ascii ''twitter.com'') (sr_message response) \<Longrightarrow>
   response \<in> set (responses_cursor w)"
  by (simp add: responses_cursor_def cursor_visits_every_message_with_the_literal)

section \<open>The concrete runs, evaluated\<close>

lemma example_run:
  "process_tweets_endpoint True True example_runtime example_world =
     (Inr example_summary, example_world_after)"
  by code_simp


lemma store_ok_atomic: "atomic_inserts store_ok"
  by (simp add: atomic_inserts_def store_ok_def)

lemma store_ok_accepts: "accepts_inserts store_ok"
  by (simp add: accepts_inserts_def store_ok_def)

lemma example_world_exclusive:
  "\<forall>source_id. \<not> (has_success_outcome example_world source_id \<and>
                      has_failure_outcome example_world source_id)"
  by (simp add: has_failure_outcome_def find_one_def example_world_def)

lemma example_fetch_alice:
  "fetch example_runtime example_world alice_url = Some (Returns (ascii ''hello world''))"
  by code_simp

lemma example_fetch_alice_down:
  "fetch (example_runtime\<lparr>mongo_insert := store_twitter_down\<rparr>) example_world alice_url =
     Some (Returns (ascii ''hello world''))"
  by code_simp

lemma example_fetch_bob:
  "fetch example_runtime example_world bob_url = Some (Raises (AttributeError (ascii ''no tweet'')))"
  by code_simp

lemma example_fetch_bob_down:
  "fetch (example_runtime\<lparr>mongo_insert := store_errors_down\<rparr>) example_world bob_url =
     Some (Raises (AttributeError (ascii ''no tweet'')))"
  by code_simp

lemma example_fetch_carol:
  "fetch example_runtime example_world carol_url =
     Some (Raises (OtherException (ascii ''timed out'')))"
  by code_simp


lemma example_scrape_alice_down:
  "scrape_and_store_tweet (example_runtime\<lparr>mongo_insert := store_twitter_down\<rparr>)
     example_world (ascii ''a1'') alice_url =
     (Inr [(''status'', ascii ''error''), (''id'', ascii ''a1''),
           (''error_message'', ascii ''An unexpected error occurred: timed out'')],
      example_world
        \<lparr>nitter_calls := [(ascii ''alice'', ascii ''12345'', ascii ''http://raspberrypi.local:8081'')],
         clock := 6,
         insert_calls :=
           [(Twitter, success_outcome (ascii ''a1'') 2 (ascii ''hello world'')),
            (TwitterErrors, failure_outcome (ascii ''a1'') 4
               (ascii ''An unexpected error occurred: timed out''))],
         twitter_errors :=
           [(''_id'', VObjectId (ascii ''ff'')) #
              failure_outcome (ascii ''a1'') 4
                (ascii ''An unexpected error occurred: timed out'')]\<rparr>)"
  by code_simp

lemma example_scrape_bob:
  "scrape_and_store_tweet example_runtime example_world (ascii ''b2'') bob_url =
     (Inr [(''status'', ascii ''error''), (''id'', ascii ''b2''),
           (''error_message'', ascii ''Nitter scraping failed (AttributeError): no tweet'')],
      example_world
        \<lparr>nitter_calls := [(ascii ''bob_2'', ascii ''99'', ascii ''http://raspberrypi.local:8081'')],
         clock := 4,
         insert_calls :=
           [(TwitterErrors, failure_outcome (ascii ''b2'') 2
               (ascii ''Nitter scraping failed (AttributeError): no tweet''))],
         twitter_errors :=
           [(''_id'', VObjectId (ascii ''f'')) #
              failure_outcome (ascii ''b2'') 2
                (ascii ''Nitter scraping failed (AttributeError): no tweet'')]\<rparr>)"
  by code_simp

lemma example_scrape_bob_down:
  "scrape_and_store_tweet (example_runtime\<lparr>mongo_insert := store_errors_down\<rparr>)
     example_world (ascii ''b2'') bob_url =
     (Inl (OtherException (ascii ''timed out'')),
      example_world
        \<lparr>nitter_calls := [(ascii ''bob_2'', ascii ''99'', ascii ''http://raspberrypi.local:8081'')],
         clock := 4,
         insert_calls :=
           [(TwitterErrors, failure_outcome (ascii ''b2'') 2
               (ascii ''Nitter scraping failed (AttributeError): no tweet''))]\<rparr>)"
  by code_simp

lemma example_scrape_carol:
  "scrape_and_store_tweet example_runtime example_world (ascii ''e5'') carol_url =
     (Inr [(''status'', ascii ''error''), (''id'', ascii ''e5''),
           (''error_message'', ascii ''An unexpected error occurred: timed out'')],
      example_world
        \<lparr>nitter_calls := [(ascii ''carol'', ascii ''7'', ascii ''http://raspberrypi.local:8081'')],
         clock := 4,
         insert_calls :=
           [(TwitterErrors, failure_outcome (ascii ''e5'') 2
               (ascii ''An unexpected error occurred: timed out''))],
         twitter_errors :=
           [(''_id'', VObjectId (ascii ''f'')) #
              failure_outcome (ascii ''e5'') 2
                (ascii ''An unexpected error occurred: timed out'')]\<rparr>)"
  by code_simp

lemma example_scrape_no_url_fails_first:
  "scrape_and_store_tweet (example_runtime\<lparr>mongo_insert := store_first_insert_fails\<rparr>)
     example_world (ascii ''d4'') (ascii ''no url here'') =
     (Inr [(''status'', ascii ''error''), (''id'', ascii ''d4''),
           (''error_message'', ascii ''An unexpected error occurred: timed out'')],
      example_world
        \<lparr>clock := 6,
         insert_calls :=
           [(TwitterErrors, failure_outcome (ascii ''d4'') 2
               (ascii ''Invalid tweet URL format: no url here'')),
            (TwitterErrors, failure_outcome (ascii ''d4'') 4
               (ascii ''An unexpected error occurred: timed out''))],
         twitter_errors :=
           [(''_id'', VObjectId (ascii ''ff'')) #
              failure_outcome (ascii ''d4'') 4
                (ascii ''An unexpected error occurred: timed out'')]\<rparr>)"
  by code_simp

lemma ack_lost_run:
  "process_tweets_endpoint True True (example_runtime\<lparr>mongo_insert := store_ack_lost\<rparr>)
     pending_world = (Inr ack_lost_summary, ack_lost_world)"
  by code_simp

lemma pending_world_exclusive:
  "\<forall>source_id. \<not> (has_success_outcome pending_world source_id \<and>
                      has_failure_outcome pending_world source_id)"
  by (simp add: has_failure_outcome_def find_one_def pending_world_def)

section \<open>The claims\<close>

text \<open>
  Claim C1, as amended. Over a store whose inserts, when they raise, have stored nothing:
  from a state in which no source id has both a success outcome and a failure outcome, a
  batch run, whether it returns or raises, leaves a state in which none has both.
\<close>

theorem batch_preserves_exclusivity:
  assumes "atomic_inserts (mongo_insert k)"
    and "\<forall>source_id. \<not> (has_success_outcome w source_id \<and> has_failure_outcome w source_id)"
    and "process_tweets_endpoint db_client nitter_scraper k w = (outcome, w')"
  shows "\<forall>source_id. \<not> (has_success_outcome w' source_id \<and> has_failure_outcome w' source_id)"
proof
  fix source_id
  from assms(2) have e: "\<not> (has_success_outcome w source_id \<and> has_failure_outcome w source_id)"
    by blast
  from endpoint_world[OF assms(3)]
  show "\<not> (has_success_outcome w' source_id \<and> has_failure_outcome w' source_id)"
  proof
    assume "w' = w"
    with e show ?thesis by simp
  next
    assume "\<exists>res. for_loop k (\<lparr>processed = 0, errored = 0, skipped = 0, results = []\<rparr>, w)
        (responses_cursor w) = (res, w')"
    then obtain res where
      "for_loop k (\<lparr>processed = 0, errored = 0, skipped = 0, results = []\<rparr>, w)
        (responses_cursor w) = (res, w')" by blast
    from for_loop_exclusive[OF assms(1) this e] show ?thesis .
  qed
qed

theorem batch_preserves_exclusivity_witness:
  "atomic_inserts (mongo_insert example_runtime) \<and>
   (\<forall>source_id. \<not> (has_success_outcome example_world source_id \<and>
                      has_failure_outcome example_world source_id)) \<and>
   process_tweets_endpoint True True example_runtime example_world =
     (Inr example_summary, example_world_after) \<and>
   (\<forall>source_id. \<not> (has_success_outcome example_world_after source_id \<and>
                      has_failure_outcome example_world_after source_id))"
proof -
  have a: "atomic_inserts (mongo_insert example_runtime)"
    by (simp add: example_runtime_def store_ok_atomic)
  from batch_preserves_exclusivity[OF a example_world_exclusive example_run]
    a example_world_exclusive example_run
  show ?thesis by blast
qed

text \<open>
  Claim C1 as stated has no proviso on the store. When the insert of a success outcome
  stores the document and raises all the same, the handler writes a failure outcome for
  the same source id, and the run returns with both.
\<close>

theorem batch_exclusivity_counterexample:
  "(\<forall>source_id. \<not> (has_success_outcome pending_world source_id \<and>
                      has_failure_outcome pending_world source_id)) \<and>
   process_tweets_endpoint True True (example_runtime\<lparr>mongo_insert := store_ack_lost\<rparr>)
     pending_world = (Inr ack_lost_summary, ack_lost_world) \<and>
   has_success_outcome ack_lost_world (ascii ''a1'') \<and>
   has_failure_outcome ack_lost_world (ascii ''a1'')"
proof -
  have b: "has_success_outcome ack_lost_world (ascii ''a1'')" by code_simp
  have c: "has_failure_outcome ack_lost_world (ascii ''a1'')" by code_simp
  from pending_world_exclusive ack_lost_run b c show ?thesis by (intro conjI)
qed

text \<open>
  Claim C2, as amended. Over a store whose inserts, when they raise, have stored nothing:
  a call of the worker that returns has appended exactly one document over the two
  outcome collections, a success outcome of the source id when it returns success (and
  then the fetch returned content), a failure outcome of the source id when it returns
  error; a call that raises has appended none. Over a store no insert of which raises,
  the call appends a success outcome when the fetch returns content and a failure outcome
  when the search finds no match or the fetch raises.
\<close>

theorem worker_appends_exactly_one_outcome:
  assumes "atomic_inserts (mongo_insert k)"
    and "scrape_and_store_tweet k w response_id tweet_url = (outcome, w')"
  shows "(((\<exists>e. outcome = Inl e) \<and>
           twitter w' = twitter w \<and> twitter_errors w' = twitter_errors w) \<or>
          (\<exists>result doc. outcome = Inr result \<and> has_source_id response_id doc \<and>
             (map_of result ''status'' = Some (ascii ''success'') \<and>
              (\<exists>content. fetch k w tweet_url = Some (Returns content)) \<and>
              twitter w' = twitter w @ [doc] \<and> twitter_errors w' = twitter_errors w \<or>
              map_of result ''status'' = Some (ascii ''error'') \<and>
              twitter w' = twitter w \<and> twitter_errors w' = twitter_errors w @ [doc]))) \<and>
         (accepts_inserts (mongo_insert k) \<longrightarrow>
            ((\<exists>content. fetch k w tweet_url = Some (Returns content)) \<and>
             (\<exists>doc. has_source_id response_id doc \<and>
                twitter w' = twitter w @ [doc] \<and> twitter_errors w' = twitter_errors w)) \<or>
            ((search (unicode_decimal k) tweet_url = None \<or>
              (\<exists>e. fetch k w tweet_url = Some (Raises e))) \<and>
             (\<exists>doc. has_source_id response_id doc \<and>
                twitter w' = twitter w \<and> twitter_errors w' = twitter_errors w @ [doc])))"
proof (intro conjI impI)
  from scrape_atomic[OF assms]
  show "((\<exists>e. outcome = Inl e) \<and>
           twitter w' = twitter w \<and> twitter_errors w' = twitter_errors w) \<or>
          (\<exists>result doc. outcome = Inr result \<and> has_source_id response_id doc \<and>
             (map_of result ''status'' = Some (ascii ''success'') \<and>
              (\<exists>content. fetch k w tweet_url = Some (Returns content)) \<and>
              twitter w' = twitter w @ [doc] \<and> twitter_errors w' = twitter_errors w \<or>
              map_of result ''status'' = Some (ascii ''error'') \<and>
              twitter w' = twitter w \<and> twitter_errors w' = twitter_errors w @ [doc]))"
  proof (elim disjE exE conjE)
    fix e assume "outcome = Inl e" "same_outcomes w w'"
    then show ?thesis by (simp add: same_outcomes_def)
  next
    fix c oid
    assume o: "outcome = Inr [(''status'', ascii ''success''), (''id'', response_id)]"
      and f: "fetch k w tweet_url = Some (Returns c)"
      and t: "twitter w' = twitter w @
                [(''_id'', VObjectId oid) # success_outcome response_id (clock w) c]"
      and e: "twitter_errors w' = twitter_errors w"
    have "has_source_id response_id
            ((''_id'', VObjectId oid) # success_outcome response_id (clock w) c)" by simp
    moreover have "map_of [(''status'', ascii ''success''), (''id'', response_id)] ''status'' =
                     Some (ascii ''success'')" by simp
    ultimately show ?thesis using o f t e by blast
  next
    fix m oid t
    assume o: "outcome = Inr [(''status'', ascii ''error''), (''id'', response_id),
                              (''error_message'', m)]"
      and tw: "twitter w' = twitter w"
      and e: "twitter_errors w' = twitter_errors w @
                [(''_id'', VObjectId oid) # failure_outcome response_id t m]"
    have "has_source_id response_id
            ((''_id'', VObjectId oid) # failure_outcome response_id t m)" by simp
    moreover have "map_of [(''status'', ascii ''error''), (''id'', response_id),
                           (''error_message'', m)] ''status'' = Some (ascii ''error'')" by simp
    ultimately show ?thesis using o tw e by blast
  qed
next
  assume "accepts_inserts (mongo_insert k)"
  from scrape_accepts[OF this assms(2)]
  show "((\<exists>content. fetch k w tweet_url = Some (Returns content)) \<and>
             (\<exists>doc. has_source_id response_id doc \<and>
                twitter w' = twitter w @ [doc] \<and> twitter_errors w' = twitter_errors w)) \<or>
            ((search (unicode_decimal k) tweet_url = None \<or>
              (\<exists>e. fetch k w tweet_url = Some (Raises e))) \<and>
             (\<exists>doc. has_source_id response_id doc \<and>
                twitter w' = twitter w \<and> twitter_errors w' = twitter_errors w @ [doc]))"
    by blast
qed

theorem worker_appends_exactly_one_outcome_witness:
  "atomic_inserts (mongo_insert example_runtime) \<and>
   accepts_inserts (mongo_insert example_runtime) \<and>
   fetch example_runtime example_world alice_url = Some (Returns (ascii ''hello world'')) \<and>
   (\<exists>doc. has_source_id (ascii ''a1'') doc \<and>
      twitter (snd (scrape_and_store_tweet example_runtime example_world (ascii ''a1'') alice_url)) =
        twitter example_world @ [doc] \<and>
      twitter_errors (snd (scrape_and_store_tweet example_runtime example_world (ascii ''a1'')
        alice_url)) = twitter_errors example_world)"
proof -
  have a: "atomic_inserts (mongo_insert example_runtime)"
    by (simp add: example_runtime_def store_ok_atomic)
  have b: "accepts_inserts (mongo_insert example_runtime)"
    by (simp add: example_runtime_def store_ok_accepts)
  have n: "search (unicode_decimal example_runtime) alice_url \<noteq> None"
    using example_fetch_alice by (auto simp add: fetch_def split: option.splits)
  from worker_appends_exactly_one_outcome[OF a surjective_pairing,
      of example_world "ascii ''a1''" alice_url] b example_fetch_alice n
  have "\<exists>doc. has_source_id (ascii ''a1'') doc \<and>
      twitter (snd (scrape_and_store_tweet example_runtime example_world (ascii ''a1'') alice_url)) =
        twitter example_world @ [doc] \<and>
      twitter_errors (snd (scrape_and_store_tweet example_runtime example_world (ascii ''a1'')
        alice_url)) = twitter_errors example_world"
    by auto
  with a b example_fetch_alice show ?thesis by blast
qed

text \<open>
  Claim C2 as stated promises a success outcome whenever the fetch returns content. When
  the insert of that outcome raises, the handler of \<^verbatim>\<open>Exception\<close> writes a failure outcome
  and the worker returns error, although the fetch returned content.
\<close>

theorem worker_success_write_raises_counterexample:
  "fetch (example_runtime\<lparr>mongo_insert := store_twitter_down\<rparr>) example_world alice_url =
     Some (Returns (ascii ''hello world'')) \<and>
   fst (scrape_and_store_tweet (example_runtime\<lparr>mongo_insert := store_twitter_down\<rparr>)
     example_world (ascii ''a1'') alice_url) =
     Inr [(''status'', ascii ''error''), (''id'', ascii ''a1''),
          (''error_message'', ascii ''An unexpected error occurred: timed out'')] \<and>
   twitter (snd (scrape_and_store_tweet (example_runtime\<lparr>mongo_insert := store_twitter_down\<rparr>)
     example_world (ascii ''a1'') alice_url)) = twitter example_world \<and>
   twitter_errors (snd (scrape_and_store_tweet
     (example_runtime\<lparr>mongo_insert := store_twitter_down\<rparr>)
     example_world (ascii ''a1'') alice_url)) =
     twitter_errors example_world @
       [(''_id'', VObjectId (ascii ''ff'')) #
          failure_outcome (ascii ''a1'') 4 (ascii ''An unexpected error occurred: timed out'')]"
proof -
  have "twitter_errors example_world = []" by (simp add: example_world_def)
  with example_fetch_alice_down show ?thesis by (simp add: example_scrape_alice_down)
qed



text \<open>
  Claim C4. The loop body queries the success collection first: when a success outcome
  of the record's id exists, whatever the message is and whether or not a failure
  outcome exists too, the record is skipped with the note that it was already processed;
  when only a failure outcome exists, it is skipped with the other note, that it failed
  before.
\<close>

theorem classifier_checks_success_first:
  "(has_success_outcome w (sr_id response) \<longrightarrow>
      loop_body k (acc, w) response =
        (Inr (acc\<lparr>skipped := skipped acc + 1,
                  results := results acc @
                    [[(''status'', ascii ''already_processed''), (''id'', sr_id response),
                      (''message'', ascii ''Tweet already successfully processed.'')]]\<rparr>), w)) \<and>
   (\<not> has_success_outcome w (sr_id response) \<and> has_failure_outcome w (sr_id response) \<longrightarrow>
      loop_body k (acc, w) response =
        (Inr (acc\<lparr>skipped := skipped acc + 1,
                  results := results acc @
                    [[(''status'', ascii ''already_in_error''), (''id'', sr_id response),
                      (''message'', ascii ''Tweet previously failed to process.'')]]\<rparr>), w))"
  by (simp add: has_success_outcome_def has_failure_outcome_def
      loop_body_processed loop_body_in_error)

theorem classifier_checks_success_first_witness:
  "has_success_outcome
     (example_world_after\<lparr>twitter_errors := [failure_outcome (ascii ''e5'') 1 (ascii ''x'')]\<rparr>)
     (ascii ''e5'') \<and>
   has_failure_outcome
     (example_world_after\<lparr>twitter_errors := [failure_outcome (ascii ''e5'') 1 (ascii ''x'')]\<rparr>)
     (ascii ''e5'') \<and>
   fst (loop_body example_runtime
      (\<lparr>processed = 0, errored = 0, skipped = 0, results = []\<rparr>,
       example_world_after\<lparr>twitter_errors := [failure_outcome (ascii ''e5'') 1 (ascii ''x'')]\<rparr>)
      \<lparr>sr_id = ascii ''e5'', sr_message = ascii ''no url here''\<rparr>) =
     Inr \<lparr>processed = 0, errored = 0, skipped = 1,
          results = [[(''status'', ascii ''already_processed''), (''id'', ascii ''e5''),
                      (''message'', ascii ''Tweet already successfully processed.'')]]\<rparr> \<and>
   \<not> has_success_outcome example_world_after (ascii ''b2'') \<and>
   has_failure_outcome example_world_after (ascii ''b2'') \<and>
   fst (loop_body example_runtime
      (\<lparr>processed = 0, errored = 0, skipped = 0, results = []\<rparr>, example_world_after)
      \<lparr>sr_id = ascii ''b2'', sr_message = alice_url\<rparr>) =
     Inr \<lparr>processed = 0, errored = 0, skipped = 1,
          results = [[(''status'', ascii ''already_in_error''), (''id'', ascii ''b2''),
                      (''message'', ascii ''Tweet previously failed to process.'')]]\<rparr>"
proof -
  let ?both = "example_world_after\<lparr>twitter_errors := [failure_outcome (ascii ''e5'') 1 (ascii ''x'')]\<rparr>"
  let ?acc = "\<lparr>processed = 0, errored = 0, skipped = 0, results = []\<rparr>"
  have a: "has_success_outcome ?both (ascii ''e5'')" by code_simp
  have b: "has_failure_outcome ?both (ascii ''e5'')" by code_simp
  have c: "\<not> has_success_outcome example_world_after (ascii ''b2'')" by code_simp
  have d: "has_failure_outcome example_world_after (ascii ''b2'')" by code_simp
  from classifier_checks_success_first[of ?both
      "\<lparr>sr_id = ascii ''e5'', sr_message = ascii ''no url here''\<rparr>" example_runtime ?acc]
    classifier_checks_success_first[of example_world_after
      "\<lparr>sr_id = ascii ''b2'', sr_message = alice_url\<rparr>" example_runtime ?acc] a b c d
  show ?thesis by simp
qed

text \<open>
  Claim C5, as amended. For every text and every table of decimal digits, the search
  returns the handle and the id of the leftmost post reference in the text, the id being
  the whole run of digits there, and no match exactly when the text holds no post
  reference; the three examples of the specification evaluate as it says. On no match,
  when the store accepts the insert the worker makes first, the worker returns the error
  result and has stored one failure outcome whose \<^verbatim>\<open>error\<close> field is
  \<^verbatim>\<open>Invalid tweet URL format: \<close> followed by the text.
\<close>

theorem search_returns_first_reference:
  "((search nd msg = Some (handle, post_id)) =
      (\<exists>pre post. msg = pre @ post_reference handle post_id @ post \<and>
         is_handle handle \<and> is_numeric_id nd post_id \<and>
         (post = [] \<or> \<not> is_digit nd (hd post)) \<and>
         (\<forall>pre' handle' post_id' post'.
            msg = pre' @ post_reference handle' post_id' @ post' \<and>
            is_handle handle' \<and> is_numeric_id nd post_id' \<longrightarrow> length pre \<le> length pre'))) \<and>
   ((search nd msg = None) =
      (\<not> (\<exists>pre handle' post_id' post.
            msg = pre @ post_reference handle' post_id' @ post \<and>
            is_handle handle' \<and> is_numeric_id nd post_id'))) \<and>
   search nd (ascii ''https://twitter.com/alice/status/12345'') =
     Some (ascii ''alice'', ascii ''12345'') \<and>
   search nd (ascii ''check out this link http://twitter.com/bob_2/status/99'') =
     Some (ascii ''bob_2'', ascii ''99'') \<and>
   search nd (ascii ''no url here'') = None \<and>
   (search (unicode_decimal k) tweet_url = None \<and>
    mongo_insert k (insert_calls w) TwitterErrors
      (failure_outcome response_id (clock w) (ascii ''Invalid tweet URL format: '' @ tweet_url)) =
      Inserted oid \<longrightarrow>
      (\<exists>doc w'.
         scrape_and_store_tweet k w response_id tweet_url =
           (Inr [(''status'', ascii ''error''), (''id'', response_id),
                 (''error_message'', ascii ''Invalid tweet URL format: '' @ tweet_url)], w') \<and>
         twitter w' = twitter w \<and>
         twitter_errors w' = twitter_errors w @ [doc] \<and>
         map_of doc ''source_id'' = Some (VObjectId response_id) \<and>
         map_of doc ''error'' = Some (VStr (ascii ''Invalid tweet URL format: '' @ tweet_url))))"
proof (intro conjI)
  show "(search nd msg = Some (handle, post_id)) =
      (\<exists>pre post. msg = pre @ post_reference handle post_id @ post \<and>
         is_handle handle \<and> is_numeric_id nd post_id \<and>
         (post = [] \<or> \<not> is_digit nd (hd post)) \<and>
         (\<forall>pre' handle' post_id' post'.
            msg = pre' @ post_reference handle' post_id' @ post' \<and>
            is_handle handle' \<and> is_numeric_id nd post_id' \<longrightarrow> length pre \<le> length pre'))"
    (is "?L = ?R")
  proof
    assume ?L
    then obtain pre s where e: "msg = pre @ s" and m: "match_at nd s = Some (handle, post_id)"
      and l: "\<forall>pre' s'. msg = pre' @ s' \<and> length pre' < length pre \<longrightarrow> match_at nd s' = None"
      unfolding search_Some_iff by blast
    from match_at_elim[OF m] obtain post where
      s: "s = post_reference handle post_id @ post" and h: "is_handle handle"
      and d: "is_numeric_id nd post_id" and p: "post = [] \<or> \<not> is_digit nd (hd post)" by blast
    have "\<forall>pre' handle' post_id' post'.
            msg = pre' @ post_reference handle' post_id' @ post' \<and>
            is_handle handle' \<and> is_numeric_id nd post_id' \<longrightarrow> length pre \<le> length pre'"
    proof (intro allI impI)
      fix pre' handle' post_id' post'
      assume a: "msg = pre' @ post_reference handle' post_id' @ post' \<and>
            is_handle handle' \<and> is_numeric_id nd post_id'"
      show "length pre \<le> length pre'"
      proof (rule ccontr)
        assume "\<not> length pre \<le> length pre'"
        then have "length pre' < length pre" by simp
        with a l have "match_at nd (post_reference handle' post_id' @ post') = None" by blast
        with a show False by (simp add: match_at_reference)
      qed
    qed
    with e s h d p show ?R by blast
  next
    assume ?R
    then obtain pre post where e: "msg = pre @ post_reference handle post_id @ post"
      and h: "is_handle handle" and d: "is_numeric_id nd post_id"
      and p: "post = [] \<or> \<not> is_digit nd (hd post)"
      and l: "\<forall>pre' handle' post_id' post'.
            msg = pre' @ post_reference handle' post_id' @ post' \<and>
            is_handle handle' \<and> is_numeric_id nd post_id' \<longrightarrow> length pre \<le> length pre'"
      by blast
    have m: "match_at nd (post_reference handle post_id @ post) = Some (handle, post_id)"
      using h d p by (rule match_at_intro)
    have "\<forall>pre' s'. msg = pre' @ s' \<and> length pre' < length pre \<longrightarrow> match_at nd s' = None"
    proof (intro allI impI)
      fix pre' s' assume a: "msg = pre' @ s' \<and> length pre' < length pre"
      show "match_at nd s' = None"
      proof (cases "match_at nd s'")
        case None
        then show ?thesis .
      next
        case (Some m')
        obtain h' d' where "m' = (h', d')" by (cases m')
        with Some match_at_elim[of nd s' h' d'] obtain post' where
          "s' = post_reference h' d' @ post'" "is_handle h'" "is_numeric_id nd d'" by blast
        with a l have "length pre \<le> length pre'" by blast
        with a show ?thesis by simp
      qed
    qed
    with e m show ?L unfolding search_Some_iff by blast
  qed
next
  show "(search nd msg = None) =
      (\<not> (\<exists>pre handle' post_id' post.
            msg = pre @ post_reference handle' post_id' @ post \<and>
            is_handle handle' \<and> is_numeric_id nd post_id'))"
  proof
    assume n: "search nd msg = None"
    show "\<not> (\<exists>pre handle' post_id' post.
            msg = pre @ post_reference handle' post_id' @ post \<and>
            is_handle handle' \<and> is_numeric_id nd post_id')"
    proof
      assume "\<exists>pre handle' post_id' post.
            msg = pre @ post_reference handle' post_id' @ post \<and>
            is_handle handle' \<and> is_numeric_id nd post_id'"
      then obtain pre h' d' post where "msg = pre @ post_reference h' d' @ post"
        "is_handle h'" "is_numeric_id nd d'" by blast
      with n show False
        unfolding search_None_iff using match_at_reference[of h' nd d' post] by simp
    qed
  next
    assume a: "\<not> (\<exists>pre handle' post_id' post.
            msg = pre @ post_reference handle' post_id' @ post \<and>
            is_handle handle' \<and> is_numeric_id nd post_id')"
    show "search nd msg = None"
      unfolding search_None_iff
    proof (intro allI impI)
      fix pre s assume e: "msg = pre @ s"
      show "match_at nd s = None"
      proof (cases "match_at nd s")
        case None
        then show ?thesis .
      next
        case (Some m')
        obtain h' d' where "m' = (h', d')" by (cases m')
        with Some match_at_elim[of nd s h' d'] obtain post' where
          "s = post_reference h' d' @ post'" "is_handle h'" "is_numeric_id nd d'" by blast
        with e a show ?thesis by blast
      qed
    qed
  qed
next
  show "search nd (ascii ''https://twitter.com/alice/status/12345'') =
     Some (ascii ''alice'', ascii ''12345'')"
    by (rule search_alice)
next
  show "search nd (ascii ''check out this link http://twitter.com/bob_2/status/99'') =
     Some (ascii ''bob_2'', ascii ''99'')"
    by (rule search_bob)
next
  show "search nd (ascii ''no url here'') = None"
    by (rule search_no_url)
next
  show "(search (unicode_decimal k) tweet_url = None \<and>
    mongo_insert k (insert_calls w) TwitterErrors
      (failure_outcome response_id (clock w) (ascii ''Invalid tweet URL format: '' @ tweet_url)) =
      Inserted oid \<longrightarrow>
      (\<exists>doc w'.
         scrape_and_store_tweet k w response_id tweet_url =
           (Inr [(''status'', ascii ''error''), (''id'', response_id),
                 (''error_message'', ascii ''Invalid tweet URL format: '' @ tweet_url)], w') \<and>
         twitter w' = twitter w \<and>
         twitter_errors w' = twitter_errors w @ [doc] \<and>
         map_of doc ''source_id'' = Some (VObjectId response_id) \<and>
         map_of doc ''error'' = Some (VStr (ascii ''Invalid tweet URL format: '' @ tweet_url))))"
  proof
    assume a: "search (unicode_decimal k) tweet_url = None \<and>
      mongo_insert k (insert_calls w) TwitterErrors
        (failure_outcome response_id (clock w) (ascii ''Invalid tweet URL format: '' @ tweet_url)) =
        Inserted oid"
    let ?m = "ascii ''Invalid tweet URL format: '' @ tweet_url"
    let ?doc = "(''_id'', VObjectId oid) # failure_outcome response_id (clock w) ?m"
    let ?w' = "w\<lparr>clock := clock w + 2,
        insert_calls := insert_calls w @ [(TwitterErrors, failure_outcome response_id (clock w) ?m)],
        twitter_errors := twitter_errors w @ [?doc]\<rparr>"
    from a have r: "record_error k w response_id ?m =
        (Inr [(''status'', ascii ''error''), (''id'', response_id), (''error_message'', ?m)], ?w')"
      by (simp add: record_error_Inserted)
    from a have "scrape_and_store_tweet k w response_id tweet_url =
        (Inr [(''status'', ascii ''error''), (''id'', response_id), (''error_message'', ?m)], ?w')"
      unfolding scrape_and_store_tweet_def by (simp add: r)
    moreover have "twitter ?w' = twitter w" "twitter_errors ?w' = twitter_errors w @ [?doc]"
      by simp_all
    moreover have "map_of ?doc ''source_id'' = Some (VObjectId response_id)"
      "map_of ?doc ''error'' = Some (VStr ?m)"
      by (simp_all add: failure_outcome_def)
    ultimately show "\<exists>doc w'.
         scrape_and_store_tweet k w response_id tweet_url =
           (Inr [(''status'', ascii ''error''), (''id'', response_id),
                 (''error_message'', ascii ''Invalid tweet URL format: '' @ tweet_url)], w') \<and>
         twitter w' = twitter w \<and>
         twitter_errors w' = twitter_errors w @ [doc] \<and>
         map_of doc ''source_id'' = Some (VObjectId response_id) \<and>
         map_of doc ''error'' = Some (VStr (ascii ''Invalid tweet URL format: '' @ tweet_url))"
      by (intro exI[of _ ?doc] exI[of _ ?w']) simp
  qed
qed

theorem search_returns_first_reference_witness:
  "search (unicode_decimal example_runtime) mixed_url = Some (ascii ''bob_2'', [57, 1641]) \<and>
   (\<exists>pre post. mixed_url = pre @ post_reference (ascii ''bob_2'') [57, 1641] @ post \<and>
      is_handle (ascii ''bob_2'') \<and> is_numeric_id (unicode_decimal example_runtime) [57, 1641]) \<and>
   search (unicode_decimal example_runtime) (ascii ''no url here'') = None \<and>
   mongo_insert example_runtime (insert_calls example_world) TwitterErrors
     (failure_outcome (ascii ''d4'') (clock example_world)
        (ascii ''Invalid tweet URL format: '' @ ascii ''no url here'')) = Inserted (ascii ''f'') \<and>
   (\<exists>doc w'.
      scrape_and_store_tweet example_runtime example_world (ascii ''d4'') (ascii ''no url here'') =
        (Inr [(''status'', ascii ''error''), (''id'', ascii ''d4''),
              (''error_message'', ascii ''Invalid tweet URL format: '' @ ascii ''no url here'')],
         w') \<and>
      twitter_errors w' = twitter_errors example_world @ [doc] \<and>
      map_of doc ''error'' =
        Some (VStr (ascii ''Invalid tweet URL format: '' @ ascii ''no url here'')))"
proof -
  have s: "search (unicode_decimal example_runtime) mixed_url = Some (ascii ''bob_2'', [57, 1641])"
    by code_simp
  have n: "search (unicode_decimal example_runtime) (ascii ''no url here'') = None"
    by (rule search_no_url)
  have i: "mongo_insert example_runtime (insert_calls example_world) TwitterErrors
     (failure_outcome (ascii ''d4'') (clock example_world)
        (ascii ''Invalid tweet URL format: '' @ ascii ''no url here'')) = Inserted (ascii ''f'')"
    by code_simp
  from search_returns_first_reference[where nd = "unicode_decimal example_runtime"
      and msg = mixed_url and handle = "ascii ''bob_2''" and post_id = "[57, 1641]"] s
  have a: "\<exists>pre post. mixed_url = pre @ post_reference (ascii ''bob_2'') [57, 1641] @ post \<and>
      is_handle (ascii ''bob_2'') \<and> is_numeric_id (unicode_decimal example_runtime) [57, 1641]"
    by blast
  from search_returns_first_reference[where k = example_runtime
      and tweet_url = "ascii ''no url here''" and w = example_world
      and response_id = "ascii ''d4''" and oid = "ascii ''f''"] n i
  have b: "\<exists>doc w'.
      scrape_and_store_tweet example_runtime example_world (ascii ''d4'') (ascii ''no url here'') =
        (Inr [(''status'', ascii ''error''), (''id'', ascii ''d4''),
              (''error_message'', ascii ''Invalid tweet URL format: '' @ ascii ''no url here'')],
         w') \<and>
      twitter_errors w' = twitter_errors example_world @ [doc] \<and>
      map_of doc ''error'' =
        Some (VStr (ascii ''Invalid tweet URL format: '' @ ascii ''no url here''))"
    by blast
  from s a n i b show ?thesis by (intro conjI)
qed

text \<open>
  Claim C5 as stated has no proviso on the store. When the first insert raises and the
  second is accepted, the failure outcome stored for a text without a match carries the
  text of the handler of \<^verbatim>\<open>Exception\<close>, which does not start with
  \<^verbatim>\<open>Invalid tweet URL format\<close>.
\<close>

theorem no_match_error_text_counterexample:
  "search (unicode_decimal (example_runtime\<lparr>mongo_insert := store_first_insert_fails\<rparr>))
     (ascii ''no url here'') = None \<and>
   twitter_errors (snd (scrape_and_store_tweet
     (example_runtime\<lparr>mongo_insert := store_first_insert_fails\<rparr>)
     example_world (ascii ''d4'') (ascii ''no url here''))) =
     twitter_errors example_world @
       [(''_id'', VObjectId (ascii ''ff'')) #
          failure_outcome (ascii ''d4'') 4 (ascii ''An unexpected error occurred: timed out'')] \<and>
   map_of ((''_id'', VObjectId (ascii ''ff'')) #
          failure_outcome (ascii ''d4'') 4 (ascii ''An unexpected error occurred: timed out''))
     ''error'' = Some (VStr (ascii ''An unexpected error occurred: timed out'')) \<and>
   strip_prefix (ascii ''Invalid tweet URL format'')
     (ascii ''An unexpected error occurred: timed out'') = None"
proof -
  have a: "search (unicode_decimal (example_runtime\<lparr>mongo_insert := store_first_insert_fails\<rparr>))
     (ascii ''no url here'') = None" by (rule search_no_url)
  have e: "twitter_errors example_world = []" by (simp add: example_world_def)
  have b: "twitter_errors (snd (scrape_and_store_tweet
     (example_runtime\<lparr>mongo_insert := store_first_insert_fails\<rparr>)
     example_world (ascii ''d4'') (ascii ''no url here''))) =
     twitter_errors example_world @
       [(''_id'', VObjectId (ascii ''ff'')) #
          failure_outcome (ascii ''d4'') 4 (ascii ''An unexpected error occurred: timed out'')]"
    by (simp add: example_scrape_no_url_fails_first e)
  have c: "map_of ((''_id'', VObjectId (ascii ''ff'')) #
          failure_outcome (ascii ''d4'') 4 (ascii ''An unexpected error occurred: timed out''))
     ''error'' = Some (VStr (ascii ''An unexpected error occurred: timed out''))"
    by (simp add: failure_outcome_def)
  have d: "strip_prefix (ascii ''Invalid tweet URL format'')
     (ascii ''An unexpected error occurred: timed out'') = None"
    by code_simp
  from a b c d show ?thesis by (intro conjI)
qed

text \<open>
  Claim C6. In the summary of a batch run that returns, the three counts add up to the
  total, the total is the length of the details list, and the details are one entry per
  record of the cursor, in the cursor's order.
\<close>

theorem summary_arithmetic:
  assumes "process_tweets_endpoint db_client nitter_scraper k w = (Inr s, w')"
  shows "processed_count s + error_count s + skipped_count s = total_attempted_or_skipped s \<and>
         total_attempted_or_skipped s = int (length (details s)) \<and>
         map (\<lambda>res. map_of res ''id'') (details s) =
           map (\<lambda>response. Some (sr_id response)) (responses_cursor w)"
proof -
  from endpoint_Inr[OF assms] obtain acc where
    l: "for_loop k (\<lparr>processed = 0, errored = 0, skipped = 0, results = []\<rparr>, w)
          (responses_cursor w) = (Inr acc, w')"
    and s: "s = \<lparr>message = ascii ''Tweet processing completed.'',
           processed_count = processed acc,
           error_count = errored acc,
           skipped_count = skipped acc,
           total_attempted_or_skipped = processed acc + errored acc + skipped acc,
           details = results acc\<rparr>" by blast
  from for_loop_counts[OF l] s show ?thesis by simp
qed

theorem summary_arithmetic_witness:
  "process_tweets_endpoint True True example_runtime example_world =
     (Inr example_summary, example_world_after) \<and>
   processed_count example_summary + error_count example_summary + skipped_count example_summary =
     total_attempted_or_skipped example_summary \<and>
   total_attempted_or_skipped example_summary = 4 \<and>
   length (details example_summary) = 4 \<and>
   map (\<lambda>res. map_of res ''id'') (details example_summary) =
     [Some (ascii ''a1''), Some (ascii ''b2''), Some (ascii ''c3''), Some (ascii ''e5'')]"
proof -
  have c: "map (\<lambda>response. Some (sr_id response)) (responses_cursor example_world) =
             [Some (ascii ''a1''), Some (ascii ''b2''), Some (ascii ''c3''), Some (ascii ''e5'')]"
    by code_simp
  have t: "total_attempted_or_skipped example_summary = 4" "length (details example_summary) = 4"
    by (simp_all add: example_summary_def)
  from summary_arithmetic[OF example_run] example_run c t show ?thesis by simp
qed




text \<open>
  Claim C8. The cursor's pattern is a regular expression whose dot is not escaped: a
  message in which another character stands where the dot of \<^verbatim>\<open>twitter.com\<close> is, is
  visited although it does not contain the literal text.
\<close>

theorem cursor_visits_a_message_without_the_literal:
  "responses_cursor
     \<lparr>rawdata = [\<lparr>sr_id = ascii ''f6'', sr_message = ascii ''twitterXcom/alice/status/1''\<rparr>],
      twitter = [], twitter_errors = [], nitter_calls = [], insert_calls = [], clock = 0\<rparr> =
     [\<lparr>sr_id = ascii ''f6'', sr_message = ascii ''twitterXcom/alice/status/1''\<rparr>] \<and>
   \<not> contains_ignoring_case (ascii ''twitter.com'') (ascii ''twitterXcom/alice/status/1'')"
  by code_simp

text \<open>
  Claim C9, as amended. When the collaborator raises \<^verbatim>\<open>AttributeError\<close> and the worker
  returns, the worker has stored one failure outcome whose \<^verbatim>\<open>error\<close> field is
  \<^verbatim>\<open>Nitter scraping failed (AttributeError): \<close> followed by the exception's text; when
  the collaborator raises any other exception and the worker returns, the field is
  \<^verbatim>\<open>An unexpected error occurred: \<close> followed by the exception's text. The two texts
  differ, whatever the exceptions say, and in both cases the result returned has the
  status \<^verbatim>\<open>error\<close> and carries the same text.
\<close>

theorem fetch_failure_texts_differ:
  assumes "fetch k_a w_a url_a = Some (Raises (AttributeError e_a))"
    and "scrape_and_store_tweet k_a w_a id_a url_a = (Inr result_a, w_a')"
    and "fetch k_b w_b url_b = Some (Raises e_b)"
    and "\<forall>t. e_b \<noteq> AttributeError t"
    and "scrape_and_store_tweet k_b w_b id_b url_b = (Inr result_b, w_b')"
  shows "\<exists>doc_a doc_b text_a text_b.
           twitter_errors w_a' = twitter_errors w_a @ [doc_a] \<and>
           map_of doc_a ''source_id'' = Some (VObjectId id_a) \<and>
           map_of doc_a ''error'' = Some (VStr text_a) \<and>
           text_a = ascii ''Nitter scraping failed (AttributeError): '' @ e_a \<and>
           twitter_errors w_b' = twitter_errors w_b @ [doc_b] \<and>
           map_of doc_b ''source_id'' = Some (VObjectId id_b) \<and>
           map_of doc_b ''error'' = Some (VStr text_b) \<and>
           text_b = ascii ''An unexpected error occurred: '' @ str_of_exn e_b \<and>
           text_a \<noteq> text_b \<and>
           map_of result_a ''status'' = Some (ascii ''error'') \<and>
           map_of result_a ''error_message'' = Some text_a \<and>
           map_of result_b ''status'' = Some (ascii ''error'') \<and>
           map_of result_b ''error_message'' = Some text_b"
proof -
  let ?text_a = "ascii ''Nitter scraping failed (AttributeError): '' @ e_a"
  let ?text_b = "ascii ''An unexpected error occurred: '' @ str_of_exn e_b"
  from scrape_fetch_raises_Inr[OF assms(1,2)] obtain oid_a where
    a: "result_a = [(''status'', ascii ''error''), (''id'', id_a), (''error_message'', ?text_a)]"
      "twitter_errors w_a' = twitter_errors w_a @
         [(''_id'', VObjectId oid_a) # failure_outcome id_a (clock w_a) ?text_a]"
    by auto
  from assms(4) have "(case e_b of
          AttributeError t \<Rightarrow> ascii ''Nitter scraping failed (AttributeError): '' @ t
        | UnboundLocalError \<Rightarrow> ascii ''An unexpected error occurred: '' @ str_of_exn e_b
        | OtherException t \<Rightarrow> ascii ''An unexpected error occurred: '' @ str_of_exn e_b) = ?text_b"
    by (cases e_b) simp_all
  with scrape_fetch_raises_Inr[OF assms(3,5)] obtain oid_b where
    b: "result_b = [(''status'', ascii ''error''), (''id'', id_b), (''error_message'', ?text_b)]"
      "twitter_errors w_b' = twitter_errors w_b @
         [(''_id'', VObjectId oid_b) # failure_outcome id_b (clock w_b) ?text_b]"
    by auto
  have d: "?text_a \<noteq> ?text_b" by (simp add: ascii_def)
  let ?doc_a = "(''_id'', VObjectId oid_a) # failure_outcome id_a (clock w_a) ?text_a"
  let ?doc_b = "(''_id'', VObjectId oid_b) # failure_outcome id_b (clock w_b) ?text_b"
  have "map_of ?doc_a ''source_id'' = Some (VObjectId id_a)"
    "map_of ?doc_a ''error'' = Some (VStr ?text_a)"
    "map_of ?doc_b ''source_id'' = Some (VObjectId id_b)"
    "map_of ?doc_b ''error'' = Some (VStr ?text_b)"
    by (simp_all add: failure_outcome_def)
  moreover have "map_of result_a ''status'' = Some (ascii ''error'')"
    "map_of result_a ''error_message'' = Some ?text_a"
    "map_of result_b ''status'' = Some (ascii ''error'')"
    "map_of result_b ''error_message'' = Some ?text_b"
    unfolding a(1) b(1) by simp_all
  ultimately show ?thesis using a(2) b(2) d by blast
qed

theorem fetch_failure_texts_differ_witness:
  "fetch example_runtime example_world bob_url =
     Some (Raises (AttributeError (ascii ''no tweet''))) \<and>
   fetch example_runtime example_world carol_url =
     Some (Raises (OtherException (ascii ''timed out''))) \<and>
   (\<exists>doc_a doc_b.
      twitter_errors (snd (scrape_and_store_tweet example_runtime example_world (ascii ''b2'')
          bob_url)) = twitter_errors example_world @ [doc_a] \<and>
      map_of doc_a ''error'' =
        Some (VStr (ascii ''Nitter scraping failed (AttributeError): '' @ ascii ''no tweet'')) \<and>
      twitter_errors (snd (scrape_and_store_tweet example_runtime example_world (ascii ''e5'')
          carol_url)) = twitter_errors example_world @ [doc_b] \<and>
      map_of doc_b ''error'' =
        Some (VStr (ascii ''An unexpected error occurred: '' @ ascii ''timed out'')))"
proof -
  have n: "\<forall>t. OtherException (ascii ''timed out'') \<noteq> AttributeError t" by simp
  from fetch_failure_texts_differ[OF example_fetch_bob example_scrape_bob
      example_fetch_carol n example_scrape_carol]
    example_fetch_bob example_fetch_carol example_scrape_bob example_scrape_carol
  show ?thesis by auto
qed

text \<open>
  Claim C9 as stated has the worker write a failure outcome and return the error result on
  every such call. When the insert of the handler raises, the worker raises: nothing is
  stored and no result is returned.
\<close>

theorem fetch_failure_unwritten_counterexample:
  "fetch (example_runtime\<lparr>mongo_insert := store_errors_down\<rparr>) example_world bob_url =
     Some (Raises (AttributeError (ascii ''no tweet''))) \<and>
   fst (scrape_and_store_tweet (example_runtime\<lparr>mongo_insert := store_errors_down\<rparr>)
     example_world (ascii ''b2'') bob_url) = Inl (OtherException (ascii ''timed out'')) \<and>
   twitter_errors (snd (scrape_and_store_tweet
     (example_runtime\<lparr>mongo_insert := store_errors_down\<rparr>)
     example_world (ascii ''b2'') bob_url)) = twitter_errors example_world"
  using example_fetch_bob_down by (simp add: example_scrape_bob_down)

text \<open>
  Claim C10. For a record whose id already has a success or a failure outcome, the loop
  body writes to neither outcome collection, attempts no insert and makes no call to the
  collaborator; and over a whole batch run, whether it returns or raises, the documents
  of a source id that had an outcome at the start are the same at the end, in both
  collections.
\<close>

theorem resolved_record_is_left_alone:
  "(has_success_outcome w (sr_id response) \<or> has_failure_outcome w (sr_id response) \<longrightarrow>
      twitter (snd (loop_body k (acc, w) response)) = twitter w \<and>
      twitter_errors (snd (loop_body k (acc, w) response)) = twitter_errors w \<and>
      nitter_calls (snd (loop_body k (acc, w) response)) = nitter_calls w \<and>
      insert_calls (snd (loop_body k (acc, w) response)) = insert_calls w) \<and>
   (process_tweets_endpoint db_client nitter_scraper k w = (outcome, w') \<and>
    (has_success_outcome w source_id \<or> has_failure_outcome w source_id) \<longrightarrow>
      filter (has_source_id source_id) (twitter w') = filter (has_source_id source_id) (twitter w) \<and>
      filter (has_source_id source_id) (twitter_errors w') =
        filter (has_source_id source_id) (twitter_errors w))"
proof (intro conjI impI)
  assume h: "has_success_outcome w (sr_id response) \<or> has_failure_outcome w (sr_id response)"
  from loop_body_skip[OF h, of k acc]
  have e: "snd (loop_body k (acc, w) response) = w" by auto
  show "twitter (snd (loop_body k (acc, w) response)) = twitter w"
    by (simp only: e)
  show "twitter_errors (snd (loop_body k (acc, w) response)) = twitter_errors w"
    by (simp only: e)
  show "nitter_calls (snd (loop_body k (acc, w) response)) = nitter_calls w"
    by (simp only: e)
  show "insert_calls (snd (loop_body k (acc, w) response)) = insert_calls w"
    by (simp only: e)
next
  assume a: "process_tweets_endpoint db_client nitter_scraper k w = (outcome, w') \<and>
    (has_success_outcome w source_id \<or> has_failure_outcome w source_id)"
  then have h: "has_success_outcome w source_id \<or> has_failure_outcome w source_id" by simp
  from a endpoint_world[of db_client nitter_scraper k w outcome w']
  have "w' = w \<or> (\<exists>res.
      for_loop k (\<lparr>processed = 0, errored = 0, skipped = 0, results = []\<rparr>, w)
        (responses_cursor w) = (res, w'))" by simp
  then have "filter (has_source_id source_id) (twitter w') =
        filter (has_source_id source_id) (twitter w) \<and>
      filter (has_source_id source_id) (twitter_errors w') =
        filter (has_source_id source_id) (twitter_errors w)"
  proof
    assume "w' = w"
    then show ?thesis by simp
  next
    assume "\<exists>res. for_loop k (\<lparr>processed = 0, errored = 0, skipped = 0, results = []\<rparr>, w)
        (responses_cursor w) = (res, w')"
    then obtain res where
      "for_loop k (\<lparr>processed = 0, errored = 0, skipped = 0, results = []\<rparr>, w)
        (responses_cursor w) = (res, w')" by blast
    from for_loop_frame[OF this h] show ?thesis .
  qed
  then show "filter (has_source_id source_id) (twitter w') =
        filter (has_source_id source_id) (twitter w)"
    and "filter (has_source_id source_id) (twitter_errors w') =
        filter (has_source_id source_id) (twitter_errors w)" by simp_all
qed

theorem resolved_record_is_left_alone_witness:
  "has_failure_outcome example_world_after (ascii ''b2'') \<and>
   snd (loop_body example_runtime
      (\<lparr>processed = 0, errored = 0, skipped = 0, results = []\<rparr>, example_world_after)
      \<lparr>sr_id = ascii ''b2'', sr_message = bob_url\<rparr>) = example_world_after \<and>
   has_success_outcome example_world (ascii ''e5'') \<and>
   process_tweets_endpoint True True example_runtime example_world =
     (Inr example_summary, example_world_after) \<and>
   filter (has_source_id (ascii ''e5'')) (twitter example_world_after) =
     filter (has_source_id (ascii ''e5'')) (twitter example_world)"
proof -
  let ?r = "\<lparr>sr_id = ascii ''b2'', sr_message = bob_url\<rparr>"
  let ?acc = "\<lparr>processed = 0, errored = 0, skipped = 0, results = []\<rparr>"
  have a: "has_failure_outcome example_world_after (ascii ''b2'')" by code_simp
  have b: "has_success_outcome example_world (ascii ''e5'')" by code_simp
  have c: "snd (loop_body example_runtime (?acc, example_world_after) ?r) =
             example_world_after" by code_simp
  from resolved_record_is_left_alone[of example_world_after ?r example_runtime ?acc]
    resolved_record_is_left_alone[of example_world ?r example_runtime ?acc
      True True "Inr example_summary" example_world_after "ascii ''e5''"]
    a b c example_run
  show ?thesis by simp
qed

end
